theory Spec2Isabelle
  imports Main "HOL-Library.Sublist"
begin

section \<open>Paths, errors and events\<close>

text \<open>
  A path is the list of its components; \<open>path.Join\<close> of two clean paths is
  their concatenation (the cleaning of \<open>.\<close>, \<open>..\<close> and doubled slashes that
  Go's \<open>path.Join\<close> performs is not modelled: the workspace root is taken to be
  clean already). File contents are byte strings.
\<close>

type_synonym path = "string list"
type_synonym bytes = string

definition path_Join :: "path \<Rightarrow> path \<Rightarrow> path" where
  "path_Join a b = a @ b"

definition AnsibleMain :: path where
  "AnsibleMain = [''ansible'', ''check.yml'']"

definition AnsibleMeta :: path where
  "AnsibleMeta = [''ansible'', ''meta.yml'']"

definition AnsibleConfigFile :: path where
  "AnsibleConfigFile = [''ansible'', ''ansible.cfg'']"

definition AnsibleHostFile :: path where
  "AnsibleHostFile = [''ansible'', ''ansible_hosts'']"

definition CatalogDestinationFile :: path where
  "CatalogDestinationFile = [''ansible'', ''catalog.json'']"

text \<open>
  Every Go \<open>error\<close> value the service can see. \<open>External\<close> stands for an error
  produced by a collaborator outside the modelled files (the playbook engine, the
  inventory builder); \<open>RetryErrors\<close> is retry-go's error log, returned when
  \<open>LastErrorOnly\<close> is off.
\<close>

datatype error =
    RemoveAllError path
  | MkdirAllError path
  | MkdirError path
  | ReadFileError path
  | CreateError path
  | WriteError path
  | MissingArtifact path
  | ApiNotAvailable
  | ContextCanceled
  | External string
  | RetryErrors "error list"

section \<open>The operating system's file tree\<close>

datatype node = Dir | File bytes

type_synonym filesystem = "path \<Rightarrow> node option"

text \<open>
  Each call of the \<open>os\<close> package can fail for reasons outside the program (a full
  disk, a permission, an I/O error). The faults are an input of the model: one
  decision per call and path. \<open>write_fault p = Some n\<close> is a write to \<open>p\<close> that
  stores only the first \<open>n\<close> bytes and returns an error.
\<close>

record os_faults =
  removeAll_fault :: "path \<Rightarrow> bool"
  mkdirAll_fault :: "path \<Rightarrow> bool"
  mkdir_fault :: "path \<Rightarrow> bool"
  create_fault :: "path \<Rightarrow> bool"
  write_fault :: "path \<Rightarrow> nat option"

definition no_faults :: os_faults where
  "no_faults = \<lparr> removeAll_fault = (\<lambda>p. False), mkdirAll_fault = (\<lambda>p. False),
     mkdir_fault = (\<lambda>p. False), create_fault = (\<lambda>p. False),
     write_fault = (\<lambda>p. None) \<rparr>"

definition is_dir :: "filesystem \<Rightarrow> path \<Rightarrow> bool" where
  "is_dir fs p = (p = [] \<or> fs p = Some Dir)"

definition is_file :: "filesystem \<Rightarrow> path \<Rightarrow> bool" where
  "is_file fs p = (case fs p of Some (File c) \<Rightarrow> True | _ \<Rightarrow> False)"

text \<open>\<open>os.RemoveAll\<close>: removes the path and everything below it; a missing path is no error.\<close>

definition os_RemoveAll :: "os_faults \<Rightarrow> path \<Rightarrow> filesystem \<Rightarrow> error option \<times> filesystem" where
  "os_RemoveAll flt p fs =
     (if removeAll_fault flt p then (Some (RemoveAllError p), fs)
      else (None, (\<lambda>q. if prefix p q then None else fs q)))"

text \<open>\<open>os.MkdirAll\<close>: creates the directory and its missing parents; fails when a
  component of the path is a file.\<close>

definition os_MkdirAll :: "os_faults \<Rightarrow> path \<Rightarrow> filesystem \<Rightarrow> error option \<times> filesystem" where
  "os_MkdirAll flt p fs =
     (if mkdirAll_fault flt p \<or> list_ex (is_file fs) (prefixes p)
      then (Some (MkdirAllError p), fs)
      else (None, (\<lambda>q. if q \<noteq> [] \<and> prefix q p then Some Dir else fs q)))"

text \<open>\<open>os.Mkdir\<close>: creates one directory; fails when the path exists or its parent is
  no directory.\<close>

definition os_Mkdir :: "os_faults \<Rightarrow> path \<Rightarrow> filesystem \<Rightarrow> error option \<times> filesystem" where
  "os_Mkdir flt p fs =
     (if mkdir_fault flt p \<or> p = [] \<or> fs p \<noteq> None \<or> \<not> is_dir fs (butlast p)
      then (Some (MkdirError p), fs)
      else (None, fs(p \<mapsto> Dir)))"

text \<open>\<open>os.Create\<close>: creates the file or truncates it; fails when the path is a
  directory or its parent is no directory.\<close>

definition os_Create :: "os_faults \<Rightarrow> path \<Rightarrow> filesystem \<Rightarrow> error option \<times> filesystem" where
  "os_Create flt p fs =
     (if create_fault flt p \<or> p = [] \<or> fs p = Some Dir \<or> \<not> is_dir fs (butlast p)
      then (Some (CreateError p), fs)
      else (None, fs(p \<mapsto> File [])))"

text \<open>\<open>fmt.Fprintf(f, "%s", content)\<close> on the file just created at \<open>p\<close>: writes the
  bytes, or a prefix of them together with an error.\<close>

definition Fprintf :: "os_faults \<Rightarrow> path \<Rightarrow> bytes \<Rightarrow> filesystem \<Rightarrow> error option \<times> filesystem" where
  "Fprintf flt p content fs =
     (case write_fault flt p of
        None \<Rightarrow> (None, fs(p \<mapsto> File content))
      | Some n \<Rightarrow> (Some (WriteError p), fs(p \<mapsto> File (take n content))))"

section \<open>The embedded template tree\<close>

text \<open>
  \<open>//go:embed ansible\<close> gives \<open>ansibleFS\<close> one directory named \<open>ansible\<close>; what it
  holds is not among the source files, so its entries are a parameter.
\<close>

datatype entry = EFile string bytes | EDir string "entry list"

definition ansibleFS :: "entry list \<Rightarrow> entry" where
  "ansibleFS es = EDir ''ansible'' es"

fun entry_name :: "entry \<Rightarrow> string" where
  "entry_name (EFile n c) = n"
| "entry_name (EDir n es) = n"

fun lookup :: "entry \<Rightarrow> path \<Rightarrow> entry option"
  and lookup_list :: "entry list \<Rightarrow> path \<Rightarrow> entry option" where
  "lookup e [] = None"
| "lookup (EFile m c) (n # ns) = (if m = n \<and> ns = [] then Some (EFile m c) else None)"
| "lookup (EDir m es) (n # ns) =
     (if m \<noteq> n then None else if ns = [] then Some (EDir m es) else lookup_list es ns)"
| "lookup_list [] ns = None"
| "lookup_list (e # es) ns =
     (case lookup e ns of Some r \<Rightarrow> Some r | None \<Rightarrow> lookup_list es ns)"

text \<open>\<open>ansibleFS.ReadFile\<close>: the bytes of a file of the bundle.\<close>

definition ReadFile :: "entry \<Rightarrow> path \<Rightarrow> error + bytes" where
  "ReadFile root name =
     (case lookup root name of
        Some (EFile n c) \<Rightarrow> Inr c
      | _ \<Rightarrow> Inl (ReadFileError name))"

text \<open>
  \<open>fs.WalkDir\<close> visits the root, then each directory's entries in order, a directory
  before what it holds. An item is the path, whether it is a directory, and the error
  \<open>WalkDir\<close> hands to the callback (none for the entries of an embedded tree). The
  walk stops at the first error the callback returns.
\<close>

type_synonym walk_item = "path \<times> bool \<times> error option"

fun walk :: "path \<Rightarrow> entry \<Rightarrow> walk_item list" where
  "walk parent (EFile n c) = [(parent @ [n], False, None)]"
| "walk parent (EDir n es) =
     (parent @ [n], True, None) # concat (map (walk (parent @ [n])) es)"

fun WalkDir :: "(walk_item \<Rightarrow> 's \<Rightarrow> error option \<times> 's) \<Rightarrow> walk_item list \<Rightarrow> 's
    \<Rightarrow> error option \<times> 's" where
  "WalkDir fn [] s = (None, s)"
| "WalkDir fn (i # items) s =
     (case fn i s of
        (Some e, s') \<Rightarrow> (Some e, s')
      | (None, s') \<Rightarrow> WalkDir fn items s')"

section \<open>The workspace provisioner\<close>

text \<open>
  The callback of \<open>createAnsibleFiles\<close>. For a file: read it from the bundle, create
  the destination, print the bytes into it; the result of \<open>Fprintf\<close> is dropped. For a
  directory: \<open>os.Mkdir\<close>, its result dropped as well.
\<close>

definition copy_entry :: "os_faults \<Rightarrow> entry \<Rightarrow> path \<Rightarrow> walk_item \<Rightarrow> filesystem
    \<Rightarrow> error option \<times> filesystem" where
  "copy_entry flt root folder item fs =
     (case item of (fileName, isDir, err) \<Rightarrow>
        (case err of
           Some e \<Rightarrow> (Some e, fs)
         | None \<Rightarrow>
             if \<not> isDir then
               (case ReadFile root fileName of
                  Inl e \<Rightarrow> (Some e, fs)
                | Inr content \<Rightarrow>
                    (case os_Create flt (path_Join folder fileName) fs of
                       (Some e, fs') \<Rightarrow> (Some e, fs')
                     | (None, fs') \<Rightarrow>
                         (None, snd (Fprintf flt (path_Join folder fileName) content fs'))))
             else (None, snd (os_Mkdir flt (path_Join folder fileName) fs))))"

definition createAnsibleFiles :: "os_faults \<Rightarrow> entry list \<Rightarrow> path \<Rightarrow> filesystem
    \<Rightarrow> error option \<times> filesystem" where
  "createAnsibleFiles flt tmpl folder fs =
     (let ansibleFolder = path_Join folder [''ansible''] in
      case os_RemoveAll flt ansibleFolder fs of
        (Some e, fs1) \<Rightarrow> (Some e, fs1)
      | (None, fs1) \<Rightarrow>
          (case os_MkdirAll flt ansibleFolder fs1 of
             (Some e, fs2) \<Rightarrow> (Some e, fs2)
           | (None, fs2) \<Rightarrow>
               WalkDir (copy_entry flt (ansibleFS tmpl) folder) (walk [] (ansibleFS tmpl)) fs2))"

section \<open>Configuration, the service and the playbook runners\<close>

text \<open>
  \<open>Config\<close> is declared outside the given files; these are the fields the service
  reads. The pointer the service holds is taken to be non-nil.
\<close>

record Config =
  AnsibleFolder :: path
  ApiHost :: string
  ApiPort :: int
  Interval :: nat

text \<open>\<open>api.NewTrentoApiService(host, port)\<close>: the client is its host and port.\<close>

type_synonym TrentoApiService = "string \<times> int"

record runnerService =
  config :: Config
  trentoApi :: "TrentoApiService option"
  ready :: bool

text \<open>
  Modelled from the spec: the \<open>AnsibleRunner\<close> handle, \<open>DefaultAnsibleRunner\<close> and the
  setters are not among the given files. The spec configures the engine with a playbook
  path, a config file path, an optional inventory path, a check-mode flag, the API host and
  port and, for the meta runner, a catalog destination; the default handle has none of
  them set. \<open>SetPlaybook\<close> and \<open>SetInventory\<close> fail with a missing-artifact error when
  the path cannot be validated against the workspace; the validation itself is the
  parameter \<open>valid\<close>.
\<close>

record AnsibleRunner =
  Playbook :: "path option"
  Inventory :: "path option"
  ConfigFile :: "path option"
  CatalogDestination :: "path option"
  Check :: bool
  TrentoApiData :: "(string \<times> int) option"

definition DefaultAnsibleRunner :: AnsibleRunner where
  "DefaultAnsibleRunner = \<lparr> Playbook = None, Inventory = None, ConfigFile = None,
     CatalogDestination = None, Check = False, TrentoApiData = None \<rparr>"

definition SetPlaybook :: "(path \<Rightarrow> bool) \<Rightarrow> path \<Rightarrow> AnsibleRunner \<Rightarrow> error option \<times> AnsibleRunner" where
  "SetPlaybook valid p r =
     (if valid p then (None, r\<lparr>Playbook := Some p\<rparr>) else (Some (MissingArtifact p), r))"

definition SetInventory :: "(path \<Rightarrow> bool) \<Rightarrow> path \<Rightarrow> AnsibleRunner \<Rightarrow> error option \<times> AnsibleRunner" where
  "SetInventory valid p r =
     (if valid p then (None, r\<lparr>Inventory := Some p\<rparr>) else (Some (MissingArtifact p), r))"

definition SetConfigFile :: "path \<Rightarrow> AnsibleRunner \<Rightarrow> AnsibleRunner" where
  "SetConfigFile p r = r\<lparr>ConfigFile := Some p\<rparr>"

definition SetCatalogDestination :: "path \<Rightarrow> AnsibleRunner \<Rightarrow> AnsibleRunner" where
  "SetCatalogDestination p r = r\<lparr>CatalogDestination := Some p\<rparr>"

definition SetTrentoApiData :: "string \<Rightarrow> int \<Rightarrow> AnsibleRunner \<Rightarrow> AnsibleRunner" where
  "SetTrentoApiData host port r = r\<lparr>TrentoApiData := Some (host, port)\<rparr>"

text \<open>The two factories return the handle together with the error, as the Go code does.\<close>

definition NewAnsibleMetaRunner :: "(path \<Rightarrow> bool) \<Rightarrow> Config \<Rightarrow> AnsibleRunner \<times> error option" where
  "NewAnsibleMetaRunner valid cfg =
     (let playbookPath = path_Join (AnsibleFolder cfg) AnsibleMeta;
          ansibleRunner = DefaultAnsibleRunner in
      case SetPlaybook valid playbookPath ansibleRunner of
        (Some err, r) \<Rightarrow> (r, Some err)
      | (None, r) \<Rightarrow>
          (let configFile = path_Join (AnsibleFolder cfg) AnsibleConfigFile;
               r1 = SetConfigFile configFile r;
               destination = path_Join (AnsibleFolder cfg) CatalogDestinationFile;
               r2 = SetCatalogDestination destination r1
           in (r2, None)))"

definition NewAnsibleCheckRunner :: "(path \<Rightarrow> bool) \<Rightarrow> Config \<Rightarrow> AnsibleRunner \<times> error option" where
  "NewAnsibleCheckRunner valid cfg =
     (let playbookPath = path_Join (AnsibleFolder cfg) AnsibleMain;
          ansibleRunner = DefaultAnsibleRunner in
      case SetPlaybook valid playbookPath ansibleRunner of
        (Some err, r) \<Rightarrow> (r, Some err)
      | (None, r) \<Rightarrow>
          (let r1 = r\<lparr>Check := True\<rparr>;
               configFile = path_Join (AnsibleFolder cfg) AnsibleConfigFile;
               r2 = SetConfigFile configFile r1;
               r3 = SetTrentoApiData (ApiHost cfg) (ApiPort cfg) r2
           in (r3, None)))"

section \<open>Construction, readiness and the on-demand catalog build\<close>

definition NewRunnerService :: "Config \<Rightarrow> runnerService \<times> error option" where
  "NewRunnerService cfg = (\<lparr> config = cfg, trentoApi = None, ready = False \<rparr>, None)"

definition IsCatalogReady :: "runnerService \<Rightarrow> bool" where
  "IsCatalogReady c = ready c"

text \<open>
  What the service does to its surroundings is recorded as a list of events, one per
  call of a collaborator, in the order of the calls.
\<close>

datatype event =
    EvProvision path
  | EvNewCheckRunner
  | EvNewMetaRunner
  | EvRunMeta AnsibleRunner
  | EvFetchTopology "TrentoApiService option"
  | EvWriteInventory path bytes
  | EvBindInventory path
  | EvRunCheck AnsibleRunner
  | EvProbe nat
  | EvOnRetry nat
  | EvSpawnLoop

text \<open>
  The surroundings of one \<open>BuildCatalog\<close> call: the faults of the file system, the
  validation of playbook paths, and what \<open>metaRunner.RunPlaybook()\<close> returns.
\<close>

record build_env =
  build_faults :: os_faults
  build_valid :: "path \<Rightarrow> bool"
  build_meta_result :: "error option"

definition BuildCatalog :: "build_env \<Rightarrow> entry list \<Rightarrow> filesystem \<Rightarrow> runnerService
    \<Rightarrow> error option \<times> filesystem \<times> runnerService \<times> event list" where
  "BuildCatalog env tmpl fs c =
     (case createAnsibleFiles (build_faults env) tmpl (AnsibleFolder (config c)) fs of
        (Some err, fs1) \<Rightarrow> (Some err, fs1, c, [EvProvision (AnsibleFolder (config c))])
      | (None, fs1) \<Rightarrow>
          (case NewAnsibleMetaRunner (build_valid env) (config c) of
             (metaRunner, Some err) \<Rightarrow>
               (Some err, fs1, c, [EvProvision (AnsibleFolder (config c)), EvNewMetaRunner])
           | (metaRunner, None) \<Rightarrow>
               (case build_meta_result env of
                  Some err \<Rightarrow>
                    (Some err, fs1, c,
                     [EvProvision (AnsibleFolder (config c)), EvNewMetaRunner, EvRunMeta metaRunner])
                | None \<Rightarrow>
                    (None, fs1, c\<lparr>ready := True\<rparr>,
                     [EvProvision (AnsibleFolder (config c)), EvNewMetaRunner, EvRunMeta metaRunner]))))"

section \<open>The execution pipeline\<close>

text \<open>
  The surroundings of one tick: what the meta playbook, the inventory content builder
  (\<open>NewClusterInventoryContent\<close>), \<open>CreateInventory\<close>, the validation inside
  \<open>SetInventory\<close> and the check playbook return. The closure captures the service and
  the two runners; the check runner is the one it updates.
\<close>

record tick_env =
  meta_result :: "error option"
  topology_result :: "error + bytes"
  inventory_result :: "error option"
  inventory_valid :: "path \<Rightarrow> bool"
  check_result :: "error option"

definition tick :: "AnsibleRunner \<Rightarrow> tick_env \<Rightarrow> runnerService \<times> AnsibleRunner
    \<Rightarrow> (runnerService \<times> AnsibleRunner) \<times> event list" where
  "tick metaRunner env st =
     (case st of (c, checkRunner) \<Rightarrow>
        (case meta_result env of
           Some err \<Rightarrow> ((c, checkRunner), [EvRunMeta metaRunner])
         | None \<Rightarrow>
             (case topology_result env of
                Inl err \<Rightarrow> ((c, checkRunner), [EvRunMeta metaRunner, EvFetchTopology (trentoApi c)])
              | Inr content \<Rightarrow>
                  (let inventoryFile = path_Join (AnsibleFolder (config c)) AnsibleHostFile in
                   case inventory_result env of
                     Some err \<Rightarrow>
                       ((c, checkRunner),
                        [EvRunMeta metaRunner, EvFetchTopology (trentoApi c),
                         EvWriteInventory inventoryFile content])
                   | None \<Rightarrow>
                       (case SetInventory (inventory_valid env) inventoryFile checkRunner of
                          (Some err, r) \<Rightarrow>
                            ((c, r),
                             [EvRunMeta metaRunner, EvFetchTopology (trentoApi c),
                              EvWriteInventory inventoryFile content, EvBindInventory inventoryFile])
                        | (None, r) \<Rightarrow>
                            ((c, r),
                             [EvRunMeta metaRunner, EvFetchTopology (trentoApi c),
                              EvWriteInventory inventoryFile content, EvBindInventory inventoryFile,
                              EvRunCheck r]))))))"

section \<open>The start-up retry\<close>

text \<open>
  \<open>retryGo.Do\<close> is the retry-go library, outside the given files. The options are
  the ones \<open>Start\<close> passes: durations in milliseconds, \<open>Attempts\<close> positive (the
  library reads 0 as "retry for ever", which is not modelled). The library waits between
  two attempts for a time it computes from \<open>Delay\<close> and \<open>MaxJitter\<close>; the model keeps
  the two options and does not model the length of the wait, only whether the context is
  cancelled during it.
\<close>

record retry_options =
  Delay :: nat
  MaxJitter :: nat
  Attempts :: nat
  LastErrorOnly :: bool

record retry_env =
  ctx_done_at_start :: bool
  web_server_up :: "nat \<Rightarrow> bool"
  ctx_done_in_wait :: "nat \<Rightarrow> bool"

definition final_error :: "retry_options \<Rightarrow> error list \<Rightarrow> error" where
  "final_error opts errorLog = (if LastErrorOnly opts then last errorLog else RetryErrors errorLog)"

definition cancel_error :: "retry_options \<Rightarrow> error list \<Rightarrow> error" where
  "cancel_error opts errorLog =
     (if LastErrorOnly opts then ContextCanceled else RetryErrors (errorLog @ [ContextCanceled]))"

function Do_loop :: "retry_options \<Rightarrow> (nat \<Rightarrow> error option) \<Rightarrow> (nat \<Rightarrow> bool) \<Rightarrow> nat \<Rightarrow> error list
    \<Rightarrow> error option \<times> event list" where
  "Do_loop opts f ctx_done n errorLog =
     (case f n of
        None \<Rightarrow> (None, [EvProbe n])
      | Some err \<Rightarrow>
          if n = Attempts opts - 1
          then (Some (final_error opts (errorLog @ [err])), [EvProbe n, EvOnRetry n])
          else if ctx_done n
          then (Some (cancel_error opts (errorLog @ [err])), [EvProbe n, EvOnRetry n])
          else if Suc n < Attempts opts
          then (case Do_loop opts f ctx_done (Suc n) (errorLog @ [err]) of
                  (r, tr) \<Rightarrow> (r, [EvProbe n, EvOnRetry n] @ tr))
          else (Some (final_error opts (errorLog @ [err])), [EvProbe n, EvOnRetry n]))"
  by pat_completeness auto
termination
  by (relation "measure (\<lambda>(opts, f, ctx_done, n, errorLog). Attempts opts - n)") auto

definition retry_Do :: "retry_options \<Rightarrow> (nat \<Rightarrow> error option) \<Rightarrow> retry_env \<Rightarrow> error option \<times> event list" where
  "retry_Do opts f env =
     (if ctx_done_at_start env then (Some ContextCanceled, [])
      else Do_loop opts f (ctx_done_in_wait env) 0 [])"

text \<open>The options of \<open>Start\<close>: \<open>Delay(2s)\<close>, \<open>MaxJitter(3s)\<close>, \<open>Attempts(8)\<close>,
  \<open>LastErrorOnly(true)\<close>.\<close>

definition start_retry_options :: retry_options where
  "start_retry_options = \<lparr> Delay = 2000, MaxJitter = 3000, Attempts = 8, LastErrorOnly = True \<rparr>"

text \<open>The retried function of \<open>Start\<close>: a fresh API client, and its liveness probe.\<close>

definition NewTrentoApiService :: "string \<Rightarrow> int \<Rightarrow> TrentoApiService" where
  "NewTrentoApiService host port = (host, port)"

definition probe :: "retry_env \<Rightarrow> nat \<Rightarrow> error option" where
  "probe env n = (if \<not> web_server_up env n then Some ApiNotAvailable else None)"

section \<open>The scheduled loop and \<open>Start\<close>\<close>

text \<open>
  Modelled from the spec: \<open>internal.Repeat\<close> is not among the given files. The spec has
  it invoke the callback on a fixed interval until the context is cancelled. The loop
  may run for ever, so it is given fuel, the number of ticks looked at; the first
  component of the result says whether the loop has returned within them.
  \<open>ctx_done k\<close> is whether the cancellation is seen after tick \<open>k\<close>.
\<close>

fun Repeat :: "nat \<Rightarrow> (nat \<Rightarrow> 's \<Rightarrow> 's \<times> event list) \<Rightarrow> (nat \<Rightarrow> bool) \<Rightarrow> nat \<Rightarrow> 's
    \<Rightarrow> bool \<times> 's \<times> event list" where
  "Repeat 0 tk ctx_done k s = (False, s, [])"
| "Repeat (Suc fuel) tk ctx_done k s =
     (case tk k s of (s', tr) \<Rightarrow>
        if ctx_done k then (True, s', tr)
        else (case Repeat fuel tk ctx_done (Suc k) s' of
                (b, s'', tr') \<Rightarrow> (b, s'', tr @ tr')))"

record loop_env =
  loop_valid :: "path \<Rightarrow> bool"
  ticks :: "nat \<Rightarrow> tick_env"
  ctx_done_after_tick :: "nat \<Rightarrow> bool"

definition startCheckRunnerTicker :: "nat \<Rightarrow> loop_env \<Rightarrow> runnerService
    \<Rightarrow> bool \<times> runnerService \<times> event list" where
  "startCheckRunnerTicker fuel env c =
     (case NewAnsibleCheckRunner (loop_valid env) (config c) of
        (checkRunner, Some err) \<Rightarrow> (True, c, [EvNewCheckRunner])
      | (checkRunner, None) \<Rightarrow>
          (case NewAnsibleMetaRunner (loop_valid env) (config c) of
             (metaRunner, Some err) \<Rightarrow> (True, c, [EvNewCheckRunner, EvNewMetaRunner])
           | (metaRunner, None) \<Rightarrow>
               (case Repeat fuel (\<lambda>k. tick metaRunner (ticks env k)) (ctx_done_after_tick env) 0
                       (c, checkRunner) of
                  (b, (c', r), tr) \<Rightarrow> (b, c', [EvNewCheckRunner, EvNewMetaRunner] @ tr))))"

text \<open>
  \<open>Start\<close> returns when the loop's goroutine ends (\<open>wg.Wait()\<close>); while the loop runs
  it blocks. \<open>Blocks\<close> is the outcome of a run whose loop has not returned within the
  fuel.
\<close>

datatype start_outcome = Returns "error option" | Blocks

record start_env =
  start_faults :: os_faults
  start_retry :: retry_env
  start_loop :: loop_env

definition Start :: "nat \<Rightarrow> start_env \<Rightarrow> entry list \<Rightarrow> filesystem \<Rightarrow> runnerService
    \<Rightarrow> start_outcome \<times> filesystem \<times> runnerService \<times> event list" where
  "Start fuel env tmpl fs c =
     (case createAnsibleFiles (start_faults env) tmpl (AnsibleFolder (config c)) fs of
        (Some err, fs1) \<Rightarrow> (Returns (Some err), fs1, c, [EvProvision (AnsibleFolder (config c))])
      | (None, fs1) \<Rightarrow>
          (case retry_Do start_retry_options (probe (start_retry env)) (start_retry env) of
             (Some err, tr) \<Rightarrow>
               (Returns (Some err), fs1, c, EvProvision (AnsibleFolder (config c)) # tr)
           | (None, tr) \<Rightarrow>
               (let c1 = c\<lparr>trentoApi :=
                           Some (NewTrentoApiService (ApiHost (config c)) (ApiPort (config c)))\<rparr> in
                case startCheckRunnerTicker fuel (start_loop env) c1 of
                  (b, c2, tr2) \<Rightarrow>
                    (if b then Returns None else Blocks, fs1, c2,
                     EvProvision (AnsibleFolder (config c)) # tr @ [EvSpawnLoop] @ tr2))))"

section \<open>Sequences of operations\<close>

text \<open>
  The operations that reach a service after its construction: the three of the
  interface, and a single tick of the loop (so that a build between two ticks is a
  sequence too). A tick carries the two runners its closure holds.
\<close>

datatype op =
    OpBuildCatalog build_env
  | OpIsCatalogReady
  | OpStart nat start_env
  | OpTick AnsibleRunner AnsibleRunner tick_env

datatype response =
    RError "error option"
  | RBool bool
  | RStart start_outcome
  | RNothing

type_synonym world = "filesystem \<times> runnerService"

fun step :: "entry list \<Rightarrow> op \<Rightarrow> world \<Rightarrow> response \<times> world" where
  "step tmpl (OpBuildCatalog env) (fs, c) =
     (case BuildCatalog env tmpl fs c of (r, fs', c', tr) \<Rightarrow> (RError r, (fs', c')))"
| "step tmpl OpIsCatalogReady (fs, c) = (RBool (IsCatalogReady c), (fs, c))"
| "step tmpl (OpStart fuel env) (fs, c) =
     (case Start fuel env tmpl fs c of (r, fs', c', tr) \<Rightarrow> (RStart r, (fs', c')))"
| "step tmpl (OpTick metaRunner checkRunner env) (fs, c) =
     (case tick metaRunner env (c, checkRunner) of ((c', r), tr) \<Rightarrow> (RNothing, (fs, c')))"

fun run :: "entry list \<Rightarrow> op list \<Rightarrow> world \<Rightarrow> response list \<times> world" where
  "run tmpl [] w = ([], w)"
| "run tmpl (x # xs) w =
     (case step tmpl x w of (r, w') \<Rightarrow>
        (case run tmpl xs w' of (rs, w'') \<Rightarrow> (r # rs, w'')))"

section \<open>The stages of a tick\<close>

text \<open>The five stages of the pipeline, and the stage an event belongs to.\<close>

datatype stage = MetaStage | TopologyStage | InventoryStage | BindStage | CheckStage

fun stage_of :: "event \<Rightarrow> stage option" where
  "stage_of (EvRunMeta r) = Some MetaStage"
| "stage_of (EvFetchTopology a) = Some TopologyStage"
| "stage_of (EvWriteInventory p b) = Some InventoryStage"
| "stage_of (EvBindInventory p) = Some BindStage"
| "stage_of (EvRunCheck r) = Some CheckStage"
| "stage_of e = None"

definition pipeline :: "stage option list" where
  "pipeline = [Some MetaStage, Some TopologyStage, Some InventoryStage, Some BindStage, Some CheckStage]"

text \<open>The number of ticks a trace holds (each tick starts with one run of the meta
  playbook), and the number of liveness probes.\<close>

definition ticks_run :: "event list \<Rightarrow> nat" where
  "ticks_run tr = length (filter (\<lambda>e. stage_of e = Some MetaStage) tr)"

fun is_probe :: "event \<Rightarrow> bool" where
  "is_probe (EvProbe n) = True"
| "is_probe e = False"

definition probes :: "event list \<Rightarrow> nat" where
  "probes tr = length (filter is_probe tr)"

section \<open>What the template holds\<close>

text \<open>
  The node the template has at a path (the path starts with the name of the root), and
  the property every embedded tree has: no two entries of a directory share a name.
\<close>

definition template_node :: "entry \<Rightarrow> path \<Rightarrow> node option" where
  "template_node root p =
     (case lookup root p of
        None \<Rightarrow> None
      | Some (EFile n c) \<Rightarrow> Some (File c)
      | Some (EDir n es) \<Rightarrow> Some Dir)"

fun well_formed :: "entry \<Rightarrow> bool" where
  "well_formed (EFile n c) = True"
| "well_formed (EDir n es) = (distinct (map entry_name es) \<and> (\<forall>e \<in> set es. well_formed e))"

section \<open>Example inputs\<close>

text \<open>Concrete inputs on which the theorems below are instantiated.\<close>

definition example_config :: Config where
  "example_config = \<lparr> AnsibleFolder = [''w''], ApiHost = ''trento'', ApiPort = 443, Interval = 5 \<rparr>"

definition example_template :: "entry list" where
  "example_template = [EFile ''check.yml'' ''c'', EFile ''meta.yml'' ''m'']"

definition build_ok :: build_env where
  "build_ok = \<lparr> build_faults = no_faults, build_valid = (\<lambda>p. True), build_meta_result = None \<rparr>"

definition build_playbook_fails :: build_env where
  "build_playbook_fails = \<lparr> build_faults = no_faults, build_valid = (\<lambda>p. True),
     build_meta_result = Some (External ''meta playbook failed'') \<rparr>"

definition example_ops :: "op list" where
  "example_ops = [OpBuildCatalog build_ok, OpBuildCatalog build_playbook_fails, OpIsCatalogReady]"

definition ready_service :: runnerService where
  "ready_service = \<lparr> config = example_config, trentoApi = None, ready = True \<rparr>"

definition tick_meta_fails :: tick_env where
  "tick_meta_fails = \<lparr> meta_result = Some (External ''meta playbook failed''),
     topology_result = Inr ''[cluster]'', inventory_result = None,
     inventory_valid = (\<lambda>p. True), check_result = None \<rparr>"

definition tick_check_fails :: tick_env where
  "tick_check_fails = \<lparr> meta_result = None,
     topology_result = Inr ''[cluster]'', inventory_result = None,
     inventory_valid = (\<lambda>p. True), check_result = Some (External ''check playbook failed'') \<rparr>"

definition tick_ok :: tick_env where
  "tick_ok = \<lparr> meta_result = None,
     topology_result = Inr ''[cluster]'', inventory_result = None,
     inventory_valid = (\<lambda>p. True), check_result = None \<rparr>"

definition build_provision_fails :: build_env where
  "build_provision_fails = \<lparr> build_faults = no_faults\<lparr>removeAll_fault := (\<lambda>p. True)\<rparr>,
     build_valid = (\<lambda>p. True), build_meta_result = None \<rparr>"

definition build_playbook_missing :: build_env where
  "build_playbook_missing = \<lparr> build_faults = no_faults,
     build_valid = (\<lambda>p. False), build_meta_result = None \<rparr>"

definition new_service :: runnerService where
  "new_service = fst (NewRunnerService example_config)"

definition quiet_ops :: "op list" where
  "quiet_ops = [OpBuildCatalog build_playbook_fails, OpTick DefaultAnsibleRunner DefaultAnsibleRunner tick_ok,
     OpIsCatalogReady]"

definition only_check_valid :: "path \<Rightarrow> bool" where
  "only_check_valid p = (p = [''w'', ''ansible'', ''check.yml''])"

definition retry_down :: retry_env where
  "retry_down = \<lparr> ctx_done_at_start = False, web_server_up = (\<lambda>n. False),
     ctx_done_in_wait = (\<lambda>n. False) \<rparr>"

definition retry_up_at_3 :: retry_env where
  "retry_up_at_3 = \<lparr> ctx_done_at_start = False, web_server_up = (\<lambda>n. 3 \<le> n),
     ctx_done_in_wait = (\<lambda>n. False) \<rparr>"

definition retry_cancelled :: retry_env where
  "retry_cancelled = \<lparr> ctx_done_at_start = False, web_server_up = (\<lambda>n. False),
     ctx_done_in_wait = (\<lambda>n. True) \<rparr>"

definition loop_check_fails :: loop_env where
  "loop_check_fails = \<lparr> loop_valid = (\<lambda>p. True), ticks = (\<lambda>k. tick_check_fails),
     ctx_done_after_tick = (\<lambda>k. False) \<rparr>"


definition start_all_down :: start_env where
  "start_all_down = \<lparr> start_faults = no_faults, start_retry = retry_down,
     start_loop = loop_check_fails \<rparr>"

definition start_up_at_3 :: start_env where
  "start_up_at_3 = \<lparr> start_faults = no_faults, start_retry = retry_up_at_3,
     start_loop = loop_check_fails \<rparr>"

definition start_cancelled_in_retry :: start_env where
  "start_cancelled_in_retry = \<lparr> start_faults = no_faults, start_retry = retry_cancelled,
     start_loop = loop_check_fails \<rparr>"



definition write_fault_on_check :: os_faults where
  "write_fault_on_check = no_faults\<lparr>write_fault :=
     (\<lambda>p. if p = [''w'', ''ansible'', ''check.yml''] then Some 0 else None)\<rparr>"

definition build_write_fails :: build_env where
  "build_write_fails = \<lparr> build_faults = write_fault_on_check, build_valid = (\<lambda>p. True),
     build_meta_result = None \<rparr>"

definition stale_fs :: filesystem where
  "stale_fs = [[''w''] \<mapsto> Dir, [''w'', ''ansible''] \<mapsto> Dir,
     [''w'', ''ansible'', ''check.yml''] \<mapsto> File ''old'',
     [''w'', ''ansible'', ''left_over.yml''] \<mapsto> File ''old'']"

section \<open>The readiness flag\<close>

lemma BuildCatalog_ready:
  "BuildCatalog env tmpl fs c = (r, fs', c', tr) \<Longrightarrow> ready c' = (ready c \<or> r = None)"
  by (auto simp: BuildCatalog_def split: prod.splits option.splits)

lemma BuildCatalog_config:
  "BuildCatalog env tmpl fs c = (r, fs', c', tr) \<Longrightarrow> config c' = config c \<and> trentoApi c' = trentoApi c"
  by (auto simp: BuildCatalog_def split: prod.splits option.splits)

lemma tick_service: "fst (fst (tick m e (c, r))) = c"
  by (simp add: tick_def Let_def split: option.splits sum.splits prod.splits)

lemma Repeat_service:
  assumes "\<And>k s. fst (fst (tk k s)) = fst s"
  shows "fst (fst (snd (Repeat fuel tk ctx_done k s))) = fst s"
proof (induction fuel arbitrary: k s)
  case 0
  show ?case by simp
next
  case (Suc fuel)
  obtain s' tr where t: "tk k s = (s', tr)" by (cases "tk k s")
  have s': "fst s' = fst s" using assms [of k s] t by simp
  show ?case
  proof (cases "ctx_done k")
    case True
    then show ?thesis using t s' by simp
  next
    case False
    obtain b s'' tr' where r: "Repeat fuel tk ctx_done (Suc k) s' = (b, s'', tr')"
      by (cases "Repeat fuel tk ctx_done (Suc k) s'")
    have "fst s'' = fst s'" using Suc.IH [of "Suc k" s'] r by simp
    then show ?thesis using t s' r False by simp
  qed
qed

lemma tick_service_fst: "fst (fst (tick m e s)) = fst s"
  by (cases s) (simp add: tick_service)

lemma Repeat_tick_service:
  "fst (fst (snd (Repeat fuel (\<lambda>k. tick m (tks k)) ctx_done k s))) = fst s"
  by (rule Repeat_service) (rule tick_service_fst)

lemma startCheckRunnerTicker_service: "fst (snd (startCheckRunnerTicker fuel env c)) = c"
proof -
  have "c' = c" if "Repeat fuel (\<lambda>k. tick m (ticks env k)) (ctx_done_after_tick env) 0 (c, r) = (b, (c', r'), tr)"
    for m r b c' r' tr
    using Repeat_tick_service [of fuel m "ticks env" "ctx_done_after_tick env" 0 "(c, r)"] that
    by simp
  then show ?thesis
    unfolding startCheckRunnerTicker_def
    by (auto split: prod.splits option.splits)
qed

lemma Start_service:
  assumes "Start fuel env tmpl fs c = (r, fs', c', tr)"
  shows "ready c' = ready c \<and> config c' = config c"
proof (cases "createAnsibleFiles (start_faults env) tmpl (AnsibleFolder (config c)) fs")
  case (Pair e1 fs1)
  show ?thesis
  proof (cases e1)
    case (Some err)
    then show ?thesis using assms Pair by (simp add: Start_def)
  next
    case None
    obtain e2 tr2 where d: "retry_Do start_retry_options (probe (start_retry env)) (start_retry env) = (e2, tr2)"
      by (cases "retry_Do start_retry_options (probe (start_retry env)) (start_retry env)")
    show ?thesis
    proof (cases e2)
      case (Some err)
      then show ?thesis using assms Pair None d by (simp add: Start_def)
    next
      case n2: None
      define c1 where "c1 = c\<lparr>trentoApi := Some (NewTrentoApiService (ApiHost (config c)) (ApiPort (config c)))\<rparr>"
      obtain b c2 tr3 where l: "startCheckRunnerTicker fuel (start_loop env) c1 = (b, c2, tr3)"
        by (cases "startCheckRunnerTicker fuel (start_loop env) c1")
      have "c2 = c1" using startCheckRunnerTicker_service [of fuel "start_loop env" c1] l by simp
      moreover have "c' = c2" using assms Pair None d n2 l by (simp add: Start_def c1_def)
      ultimately show ?thesis by (simp add: c1_def)
    qed
  qed
qed

lemma step_ready:
  assumes "step tmpl x (fs, c) = (r, (fs', c'))"
  shows "ready c' = (ready c \<or> r = RError None)" and "config c' = config c"
proof -
  show "ready c' = (ready c \<or> r = RError None)"
  proof (cases x)
    case (OpBuildCatalog env)
    then show ?thesis using assms BuildCatalog_ready [of env tmpl fs c]
      by (auto split: prod.splits)
  next
    case OpIsCatalogReady
    then show ?thesis using assms by auto
  next
    case (OpStart fuel env)
    then show ?thesis using assms Start_service [of fuel env tmpl fs c]
      by (auto split: prod.splits)
  next
    case (OpTick m ck env)
    then show ?thesis using assms tick_service [of m env c ck]
      by (auto split: prod.splits)
  qed
  show "config c' = config c"
  proof (cases x)
    case (OpBuildCatalog env)
    then show ?thesis using assms BuildCatalog_config [of env tmpl fs c]
      by (auto split: prod.splits)
  next
    case OpIsCatalogReady
    then show ?thesis using assms by auto
  next
    case (OpStart fuel env)
    then show ?thesis using assms Start_service [of fuel env tmpl fs c]
      by (auto split: prod.splits)
  next
    case (OpTick m ck env)
    then show ?thesis using assms tick_service [of m env c ck]
      by (auto split: prod.splits)
  qed
qed

lemma step_response_ready:
  "step tmpl x (fs, c) = (RBool b, w') \<Longrightarrow> b = ready c"
  by (cases x) (auto simp: IsCatalogReady_def split: prod.splits)

lemma run_length: "run tmpl ops w = (rs, w') \<Longrightarrow> length rs = length ops"
  by (induction ops arbitrary: w rs) (auto split: prod.splits)

lemma run_append:
  "run tmpl (xs @ ys) w =
     (case run tmpl xs w of (rs1, w1) \<Rightarrow>
        (case run tmpl ys w1 of (rs2, w2) \<Rightarrow> (rs1 @ rs2, w2)))"
  by (induction xs arbitrary: w) (auto split: prod.splits)

lemma run_ready:
  "run tmpl ops (fs, c) = (rs, (fs', c')) \<Longrightarrow> ready c' = (ready c \<or> RError None \<in> set rs)"
proof (induction ops arbitrary: fs c rs)
  case Nil
  then show ?case by simp
next
  case (Cons x xs)
  obtain r fs1 c1 where s: "step tmpl x (fs, c) = (r, (fs1, c1))"
    by (metis prod.exhaust)
  obtain rs1 where r: "run tmpl xs (fs1, c1) = (rs1, (fs', c'))" and rs: "rs = r # rs1"
    using Cons.prems s by (auto split: prod.splits)
  have "ready c' = (ready c1 \<or> RError None \<in> set rs1)" using Cons.IH [OF r] .
  moreover have "ready c1 = (ready c \<or> r = RError None)" using step_ready(1) [OF s] .
  ultimately show ?case using rs by auto
qed

lemma run_nth_ready:
  assumes "run tmpl ops w = (rs, w')" and "i < j" and "j < length ops"
    and "rs ! i = RError None" and "ops ! j = OpIsCatalogReady"
  shows "rs ! j = RBool True"
proof -
  obtain fs c where w: "w = (fs, c)" by (cases w)
  have ops: "ops = take j ops @ (ops ! j # drop (Suc j) ops)"
    using assms(3) by (simp add: id_take_nth_drop)
  obtain rs1 fs1 c1 where r1: "run tmpl (take j ops) w = (rs1, (fs1, c1))"
    by (metis prod.exhaust)
  obtain rs2 w2 where r2: "run tmpl (ops ! j # drop (Suc j) ops) (fs1, c1) = (rs2, w2)"
    by (metis prod.exhaust)
  have "run tmpl ops w = (rs1 @ rs2, w2)"
    using run_append [of tmpl "take j ops" "ops ! j # drop (Suc j) ops" w] ops r1 r2 by simp
  then have rs: "rs = rs1 @ rs2" using assms(1) by simp
  have l1: "length rs1 = j" using run_length [OF r1] assms(3) by simp
  then have "rs1 ! i = RError None" using assms(2,4) rs by (simp add: nth_append)
  then have "RError None \<in> set rs1" using l1 assms(2) by (metis nth_mem)
  then have "ready c1" using run_ready [of tmpl "take j ops" fs c rs1 fs1 c1] r1 w by simp
  moreover have "rs2 ! 0 = RBool (ready c1)"
    using r2 assms(5) by (auto simp: IsCatalogReady_def split: prod.splits)
  ultimately show ?thesis using rs l1 by (simp add: nth_append)
qed

lemmas os_defs = os_RemoveAll_def os_MkdirAll_def os_Mkdir_def os_Create_def Fprintf_def
  is_dir_def is_file_def no_faults_def path_Join_def

lemmas provision_defs = createAnsibleFiles_def copy_entry_def ReadFile_def ansibleFS_def

lemmas build_defs = BuildCatalog_def NewAnsibleMetaRunner_def SetPlaybook_def SetConfigFile_def
  SetCatalogDestination_def DefaultAnsibleRunner_def

lemma example_run:
  "fst (run example_template example_ops (Map.empty, fst (NewRunnerService example_config)))
     = [RError None, RError (Some (External ''meta playbook failed'')), RBool True]"
  by (simp add: example_ops_def build_ok_def build_playbook_fails_def build_defs provision_defs
      os_defs example_template_def example_config_def NewRunnerService_def IsCatalogReady_def
      Let_def)

text \<open>
  Claim C1. A service built by \<open>NewRunnerService\<close> is not ready; a \<open>BuildCatalog\<close>
  call that returns nil leaves it ready; no operation makes a ready service unready; so
  in every sequence of operations, once a \<open>BuildCatalog\<close> has returned nil, every later
  \<open>IsCatalogReady\<close> returns true, whatever the operations in between return.
\<close>
theorem readiness_is_monotonic:
  "\<not> IsCatalogReady (fst (NewRunnerService cfg))
   \<and> (fst (BuildCatalog env tmpl fs c) = None \<longrightarrow>
        IsCatalogReady (fst (snd (snd (BuildCatalog env tmpl fs c)))))
   \<and> (IsCatalogReady c \<longrightarrow> IsCatalogReady (snd (snd (step tmpl x (fs, c)))))
   \<and> (i < j \<and> j < length ops \<and> fst (run tmpl ops w) ! i = RError None
        \<and> ops ! j = OpIsCatalogReady \<longrightarrow> fst (run tmpl ops w) ! j = RBool True)"
proof (intro conjI impI)
  show "\<not> IsCatalogReady (fst (NewRunnerService cfg))"
    by (simp add: NewRunnerService_def IsCatalogReady_def)
next
  assume "fst (BuildCatalog env tmpl fs c) = None"
  then show "IsCatalogReady (fst (snd (snd (BuildCatalog env tmpl fs c))))"
    using BuildCatalog_ready [of env tmpl fs c]
    by (cases "BuildCatalog env tmpl fs c") (simp add: IsCatalogReady_def)
next
  assume "IsCatalogReady c"
  then show "IsCatalogReady (snd (snd (step tmpl x (fs, c))))"
    using step_ready(1) [of tmpl x fs c]
    by (cases "step tmpl x (fs, c)") (auto simp: IsCatalogReady_def)
next
  assume "i < j \<and> j < length ops \<and> fst (run tmpl ops w) ! i = RError None
        \<and> ops ! j = OpIsCatalogReady"
  then show "fst (run tmpl ops w) ! j = RBool True"
    using run_nth_ready [of tmpl ops w "fst (run tmpl ops w)" "snd (run tmpl ops w)" i j]
    by simp
qed

theorem readiness_is_monotonic_witness:
  "fst (BuildCatalog build_ok example_template Map.empty (fst (NewRunnerService example_config))) = None
   \<and> IsCatalogReady (fst (snd (snd (BuildCatalog build_ok example_template Map.empty
         (fst (NewRunnerService example_config))))))
   \<and> IsCatalogReady ready_service
   \<and> IsCatalogReady (snd (snd (step example_template (OpBuildCatalog build_playbook_fails)
         (Map.empty, ready_service))))
   \<and> (0::nat) < 2 \<and> 2 < length example_ops
   \<and> fst (run example_template example_ops (Map.empty, fst (NewRunnerService example_config))) ! 0
        = RError None
   \<and> example_ops ! 2 = OpIsCatalogReady
   \<and> fst (run example_template example_ops (Map.empty, fst (NewRunnerService example_config))) ! 2
        = RBool True"
proof -
  have b: "fst (BuildCatalog build_ok example_template Map.empty (fst (NewRunnerService example_config))) = None"
    by (simp add: build_ok_def build_defs provision_defs os_defs example_template_def
        example_config_def NewRunnerService_def Let_def)
  have r: "IsCatalogReady ready_service"
    by (simp add: ready_service_def IsCatalogReady_def)
  have i: "(0::nat) < 2 \<and> 2 < length example_ops
     \<and> fst (run example_template example_ops (Map.empty, fst (NewRunnerService example_config))) ! 0
        = RError None
     \<and> example_ops ! 2 = OpIsCatalogReady"
    by (simp add: example_run) (simp add: example_ops_def)
  show ?thesis
    using b r i
      readiness_is_monotonic [of example_config build_ok example_template Map.empty
        "fst (NewRunnerService example_config)" "OpIsCatalogReady" 0 2 example_ops
        "(Map.empty, fst (NewRunnerService example_config))"]
      readiness_is_monotonic [of example_config build_ok example_template Map.empty
        ready_service "OpBuildCatalog build_playbook_fails" 0 2 example_ops
        "(Map.empty, fst (NewRunnerService example_config))"]
    by blast
qed

text \<open>
  Claim C10. For every configuration \<open>NewRunnerService\<close> returns a nil error and a
  service whose \<open>IsCatalogReady\<close> is false; it stays false through every sequence of
  operations in which no \<open>BuildCatalog\<close> has returned nil.
\<close>
theorem NewRunnerService_succeeds_not_ready:
  "snd (NewRunnerService cfg) = None
   \<and> IsCatalogReady (fst (NewRunnerService cfg)) = False
   \<and> (RError None \<notin> set (fst (run tmpl ops (fs, fst (NewRunnerService cfg)))) \<longrightarrow>
        IsCatalogReady (snd (snd (run tmpl ops (fs, fst (NewRunnerService cfg))))) = False)"
proof (intro conjI impI)
  show "snd (NewRunnerService cfg) = None" by (simp add: NewRunnerService_def)
  show n: "IsCatalogReady (fst (NewRunnerService cfg)) = False"
    by (simp add: NewRunnerService_def IsCatalogReady_def)
  assume a: "RError None \<notin> set (fst (run tmpl ops (fs, fst (NewRunnerService cfg))))"
  obtain rs fs' c' where r: "run tmpl ops (fs, fst (NewRunnerService cfg)) = (rs, (fs', c'))"
    by (metis prod.exhaust)
  show "IsCatalogReady (snd (snd (run tmpl ops (fs, fst (NewRunnerService cfg))))) = False"
    using run_ready [OF r] a n r by (simp add: IsCatalogReady_def)
qed

lemma quiet_run:
  "fst (run example_template quiet_ops (Map.empty, fst (NewRunnerService example_config)))
     = [RError (Some (External ''meta playbook failed'')), RNothing, RBool False]"
  by (simp add: quiet_ops_def build_playbook_fails_def build_defs provision_defs
      os_defs example_template_def example_config_def NewRunnerService_def IsCatalogReady_def
      tick_def tick_ok_def SetInventory_def AnsibleHostFile_def Let_def)

theorem NewRunnerService_succeeds_not_ready_witness:
  "RError None \<notin> set (fst (run example_template quiet_ops
       (Map.empty, fst (NewRunnerService example_config))))
   \<and> snd (NewRunnerService example_config) = None
   \<and> IsCatalogReady (fst (NewRunnerService example_config)) = False
   \<and> IsCatalogReady (snd (snd (run example_template quiet_ops
       (Map.empty, fst (NewRunnerService example_config))))) = False"
  using NewRunnerService_succeeds_not_ready [of example_config example_template quiet_ops Map.empty]
  by (simp add: quiet_run)

text \<open>
  Claim C9. A tick never writes the readiness flag: \<open>IsCatalogReady\<close> is the same after
  a tick as before it, whatever its stages return, and the same after the whole scheduled
  loop; every operation other than \<open>BuildCatalog\<close> leaves the flag as it was.
\<close>
theorem tick_keeps_readiness:
  "IsCatalogReady (fst (fst (tick metaRunner env (c, checkRunner)))) = IsCatalogReady c
   \<and> IsCatalogReady (fst (snd (startCheckRunnerTicker fuel lenv c))) = IsCatalogReady c
   \<and> ((\<forall>benv. x \<noteq> OpBuildCatalog benv) \<longrightarrow>
        IsCatalogReady (snd (snd (step tmpl x (fs, c)))) = IsCatalogReady c)"
proof (intro conjI impI)
  show "IsCatalogReady (fst (fst (tick metaRunner env (c, checkRunner)))) = IsCatalogReady c"
    by (simp add: tick_service)
  show "IsCatalogReady (fst (snd (startCheckRunnerTicker fuel lenv c))) = IsCatalogReady c"
    by (simp add: startCheckRunnerTicker_service)
  assume nb: "\<forall>benv. x \<noteq> OpBuildCatalog benv"
  obtain r fs' c' where s: "step tmpl x (fs, c) = (r, (fs', c'))" by (metis prod.exhaust)
  have "r \<noteq> RError None" using s nb by (cases x) (auto split: prod.splits)
  then show "IsCatalogReady (snd (snd (step tmpl x (fs, c)))) = IsCatalogReady c"
    using step_ready(1) [OF s] s by (simp add: IsCatalogReady_def)
qed

theorem tick_keeps_readiness_witness:
  "(\<forall>benv. OpTick DefaultAnsibleRunner DefaultAnsibleRunner tick_check_fails \<noteq> OpBuildCatalog benv)
   \<and> IsCatalogReady (fst (fst (tick DefaultAnsibleRunner tick_check_fails (new_service, DefaultAnsibleRunner))))
        = IsCatalogReady new_service
   \<and> IsCatalogReady (snd (snd (step example_template
         (OpTick DefaultAnsibleRunner DefaultAnsibleRunner tick_check_fails) (Map.empty, new_service))))
        = IsCatalogReady new_service
   \<and> IsCatalogReady new_service = False"
  using tick_keeps_readiness [of DefaultAnsibleRunner tick_check_fails new_service DefaultAnsibleRunner
      0 undefined "OpTick DefaultAnsibleRunner DefaultAnsibleRunner tick_check_fails" example_template Map.empty]
  by (simp add: new_service_def NewRunnerService_def IsCatalogReady_def)

section \<open>The on-demand catalog build\<close>

text \<open>
  The control flow of \<open>BuildCatalog\<close>: it calls the provisioner, then the meta-runner
  factory, then the meta playbook, each at most once and in this order. When all three
  return no error it returns nil and sets the readiness flag; when one returns an error
  it returns that error, makes no later call and leaves the service, the readiness flag
  included, as it was. A failure the provisioner does not report is not among them: see
  the section on a failed write.
\<close>

theorem BuildCatalog_steps:
  "fst (snd (BuildCatalog env tmpl fs c))
     = snd (createAnsibleFiles (build_faults env) tmpl (AnsibleFolder (config c)) fs)
   \<and> prefix (snd (snd (snd (BuildCatalog env tmpl fs c))))
        [EvProvision (AnsibleFolder (config c)), EvNewMetaRunner,
         EvRunMeta (fst (NewAnsibleMetaRunner (build_valid env) (config c)))]
   \<and> (fst (createAnsibleFiles (build_faults env) tmpl (AnsibleFolder (config c)) fs) = Some e \<longrightarrow>
        fst (BuildCatalog env tmpl fs c) = Some e
        \<and> fst (snd (snd (BuildCatalog env tmpl fs c))) = c
        \<and> snd (snd (snd (BuildCatalog env tmpl fs c))) = [EvProvision (AnsibleFolder (config c))])
   \<and> (fst (createAnsibleFiles (build_faults env) tmpl (AnsibleFolder (config c)) fs) = None
        \<and> snd (NewAnsibleMetaRunner (build_valid env) (config c)) = Some e \<longrightarrow>
        fst (BuildCatalog env tmpl fs c) = Some e
        \<and> fst (snd (snd (BuildCatalog env tmpl fs c))) = c
        \<and> snd (snd (snd (BuildCatalog env tmpl fs c)))
            = [EvProvision (AnsibleFolder (config c)), EvNewMetaRunner])
   \<and> (fst (createAnsibleFiles (build_faults env) tmpl (AnsibleFolder (config c)) fs) = None
        \<and> snd (NewAnsibleMetaRunner (build_valid env) (config c)) = None
        \<and> build_meta_result env = Some e \<longrightarrow>
        fst (BuildCatalog env tmpl fs c) = Some e
        \<and> fst (snd (snd (BuildCatalog env tmpl fs c))) = c
        \<and> snd (snd (snd (BuildCatalog env tmpl fs c)))
            = [EvProvision (AnsibleFolder (config c)), EvNewMetaRunner,
               EvRunMeta (fst (NewAnsibleMetaRunner (build_valid env) (config c)))])
   \<and> (fst (createAnsibleFiles (build_faults env) tmpl (AnsibleFolder (config c)) fs) = None
        \<and> snd (NewAnsibleMetaRunner (build_valid env) (config c)) = None
        \<and> build_meta_result env = None \<longrightarrow>
        fst (BuildCatalog env tmpl fs c) = None
        \<and> fst (snd (snd (BuildCatalog env tmpl fs c))) = c\<lparr>ready := True\<rparr>
        \<and> snd (snd (snd (BuildCatalog env tmpl fs c)))
            = [EvProvision (AnsibleFolder (config c)), EvNewMetaRunner,
               EvRunMeta (fst (NewAnsibleMetaRunner (build_valid env) (config c)))])"
proof -
  obtain e1 fs1 where p: "createAnsibleFiles (build_faults env) tmpl (AnsibleFolder (config c)) fs = (e1, fs1)"
    by (metis prod.exhaust)
  obtain m e2 where n: "NewAnsibleMetaRunner (build_valid env) (config c) = (m, e2)"
    by (metis prod.exhaust)
  show ?thesis
    by (cases e1; cases e2; cases "build_meta_result env") (simp_all add: BuildCatalog_def p n)
qed


lemma provision_fails_eval:
  "fst (createAnsibleFiles (build_faults build_provision_fails) example_template
         (AnsibleFolder (config ready_service)) Map.empty) = Some (RemoveAllError [''w'', ''ansible''])"
  by (simp add: build_provision_fails_def provision_defs os_defs ready_service_def example_config_def)

lemma provision_ok_eval:
  "fst (createAnsibleFiles no_faults example_template [''w''] Map.empty) = None"
  by (simp add: provision_defs os_defs example_template_def Let_def)

theorem BuildCatalog_steps_witness:
  "(fst (createAnsibleFiles (build_faults build_provision_fails) example_template
         (AnsibleFolder (config ready_service)) Map.empty) = Some (RemoveAllError [''w'', ''ansible''])
    \<and> fst (BuildCatalog build_provision_fails example_template Map.empty ready_service)
        = Some (RemoveAllError [''w'', ''ansible''])
    \<and> fst (snd (snd (BuildCatalog build_provision_fails example_template Map.empty ready_service)))
        = ready_service)
   \<and> (fst (createAnsibleFiles (build_faults build_playbook_missing) example_template
         (AnsibleFolder (config ready_service)) Map.empty) = None
    \<and> snd (NewAnsibleMetaRunner (build_valid build_playbook_missing) (config ready_service))
        = Some (MissingArtifact [''w'', ''ansible'', ''meta.yml''])
    \<and> fst (BuildCatalog build_playbook_missing example_template Map.empty ready_service)
        = Some (MissingArtifact [''w'', ''ansible'', ''meta.yml''])
    \<and> fst (snd (snd (BuildCatalog build_playbook_missing example_template Map.empty ready_service)))
        = ready_service)
   \<and> (fst (createAnsibleFiles (build_faults build_playbook_fails) example_template
         (AnsibleFolder (config ready_service)) Map.empty) = None
    \<and> snd (NewAnsibleMetaRunner (build_valid build_playbook_fails) (config ready_service)) = None
    \<and> build_meta_result build_playbook_fails = Some (External ''meta playbook failed'')
    \<and> fst (BuildCatalog build_playbook_fails example_template Map.empty ready_service)
        = Some (External ''meta playbook failed'')
    \<and> fst (snd (snd (BuildCatalog build_playbook_fails example_template Map.empty ready_service)))
        = ready_service)
   \<and> (fst (createAnsibleFiles (build_faults build_ok) example_template
         (AnsibleFolder (config new_service)) Map.empty) = None
    \<and> snd (NewAnsibleMetaRunner (build_valid build_ok) (config new_service)) = None
    \<and> build_meta_result build_ok = None
    \<and> fst (BuildCatalog build_ok example_template Map.empty new_service) = None
    \<and> fst (snd (snd (BuildCatalog build_ok example_template Map.empty new_service)))
        = new_service\<lparr>ready := True\<rparr>
    \<and> snd (snd (snd (BuildCatalog build_ok example_template Map.empty new_service)))
        = [EvProvision [''w''], EvNewMetaRunner,
           EvRunMeta \<lparr> Playbook = Some [''w'', ''ansible'', ''meta.yml''], Inventory = None,
             ConfigFile = Some [''w'', ''ansible'', ''ansible.cfg''],
             CatalogDestination = Some [''w'', ''ansible'', ''catalog.json''],
             Check = False, TrentoApiData = None \<rparr>])"
proof -
  have cfg: "AnsibleFolder (config ready_service) = [''w'']" "AnsibleFolder (config new_service) = [''w'']"
    by (simp_all add: ready_service_def new_service_def NewRunnerService_def example_config_def)
  have f: "build_faults build_playbook_missing = no_faults" "build_faults build_playbook_fails = no_faults"
    "build_faults build_ok = no_faults"
    by (simp_all add: build_playbook_missing_def build_playbook_fails_def build_ok_def)
  have m: "NewAnsibleMetaRunner (build_valid build_playbook_missing) (config ready_service)
      = (DefaultAnsibleRunner, Some (MissingArtifact [''w'', ''ansible'', ''meta.yml'']))"
    by (simp add: build_playbook_missing_def NewAnsibleMetaRunner_def SetPlaybook_def cfg
        path_Join_def AnsibleMeta_def)
  have k: "NewAnsibleMetaRunner (\<lambda>p. True) cf
      = (\<lparr> Playbook = Some (AnsibleFolder cf @ [''ansible'', ''meta.yml'']), Inventory = None,
             ConfigFile = Some (AnsibleFolder cf @ [''ansible'', ''ansible.cfg'']),
             CatalogDestination = Some (AnsibleFolder cf @ [''ansible'', ''catalog.json'']),
             Check = False, TrentoApiData = None \<rparr>, None)" for cf
    by (simp add: NewAnsibleMetaRunner_def SetPlaybook_def SetConfigFile_def
        SetCatalogDestination_def DefaultAnsibleRunner_def path_Join_def AnsibleMeta_def
        AnsibleConfigFile_def CatalogDestinationFile_def)
  have v: "build_valid build_playbook_fails = (\<lambda>p. True)" "build_valid build_ok = (\<lambda>p. True)"
    "build_meta_result build_playbook_fails = Some (External ''meta playbook failed'')"
    "build_meta_result build_ok = None"
    by (simp_all add: build_playbook_fails_def build_ok_def)
  show ?thesis
    using provision_fails_eval provision_ok_eval
      BuildCatalog_steps [of build_provision_fails example_template Map.empty ready_service
        "RemoveAllError [''w'', ''ansible'']"]
      BuildCatalog_steps [of build_playbook_missing example_template Map.empty ready_service
        "MissingArtifact [''w'', ''ansible'', ''meta.yml'']"]
      BuildCatalog_steps [of build_playbook_fails example_template Map.empty ready_service
        "External ''meta playbook failed''"]
      BuildCatalog_steps [of build_ok example_template Map.empty new_service ApiNotAvailable]
    by (simp add: cfg f m k v)
qed

section \<open>The tick\<close>

text \<open>
  Claim C4. The events of one tick are an initial part of the five stages in their order
  (meta playbook, topology, inventory write, inventory binding, check playbook), each at
  most once; a tick whose meta stage fails does nothing but run the meta playbook: it
  writes no inventory and does not invoke the check runner; a tick whose first four
  stages succeed performs all five.
\<close>
theorem tick_stage_order:
  "prefix (map stage_of (snd (tick metaRunner env (c, checkRunner)))) pipeline
   \<and> (meta_result env \<noteq> None \<longrightarrow>
        snd (tick metaRunner env (c, checkRunner)) = [EvRunMeta metaRunner]
        \<and> Some InventoryStage \<notin> set (map stage_of (snd (tick metaRunner env (c, checkRunner))))
        \<and> Some CheckStage \<notin> set (map stage_of (snd (tick metaRunner env (c, checkRunner)))))
   \<and> (meta_result env = None \<and> topology_result env = Inr content \<and> inventory_result env = None
        \<and> inventory_valid env (path_Join (AnsibleFolder (config c)) AnsibleHostFile) \<longrightarrow>
        snd (tick metaRunner env (c, checkRunner))
          = [EvRunMeta metaRunner, EvFetchTopology (trentoApi c),
             EvWriteInventory (path_Join (AnsibleFolder (config c)) AnsibleHostFile) content,
             EvBindInventory (path_Join (AnsibleFolder (config c)) AnsibleHostFile),
             EvRunCheck (checkRunner\<lparr>Inventory :=
               Some (path_Join (AnsibleFolder (config c)) AnsibleHostFile)\<rparr>)])"
proof -
  have p: "prefix (map stage_of (snd (tick metaRunner env (c, checkRunner)))) pipeline"
    by (simp add: tick_def pipeline_def SetInventory_def Let_def
        split: option.splits sum.splits)
  have m: "snd (tick metaRunner env (c, checkRunner)) = [EvRunMeta metaRunner]"
    if "meta_result env \<noteq> None"
    using that by (auto simp: tick_def)
  have a: "snd (tick metaRunner env (c, checkRunner))
          = [EvRunMeta metaRunner, EvFetchTopology (trentoApi c),
             EvWriteInventory (path_Join (AnsibleFolder (config c)) AnsibleHostFile) content,
             EvBindInventory (path_Join (AnsibleFolder (config c)) AnsibleHostFile),
             EvRunCheck (checkRunner\<lparr>Inventory :=
               Some (path_Join (AnsibleFolder (config c)) AnsibleHostFile)\<rparr>)]"
    if "meta_result env = None \<and> topology_result env = Inr content \<and> inventory_result env = None
        \<and> inventory_valid env (path_Join (AnsibleFolder (config c)) AnsibleHostFile)"
    using that by (simp add: tick_def SetInventory_def Let_def)
  show ?thesis using p m a by simp
qed

theorem tick_stage_order_witness:
  "meta_result tick_meta_fails \<noteq> None
   \<and> snd (tick DefaultAnsibleRunner tick_meta_fails (new_service, DefaultAnsibleRunner))
       = [EvRunMeta DefaultAnsibleRunner]
   \<and> (meta_result tick_ok = None \<and> topology_result tick_ok = Inr ''[cluster]''
       \<and> inventory_result tick_ok = None
       \<and> inventory_valid tick_ok (path_Join (AnsibleFolder (config new_service)) AnsibleHostFile))
   \<and> map stage_of (snd (tick DefaultAnsibleRunner tick_ok (new_service, DefaultAnsibleRunner)))
       = pipeline"
  using tick_stage_order [of DefaultAnsibleRunner tick_meta_fails new_service DefaultAnsibleRunner
      "''[cluster]''"]
    tick_stage_order [of DefaultAnsibleRunner tick_ok new_service DefaultAnsibleRunner
      "''[cluster]''"]
  by (simp add: tick_meta_fails_def tick_ok_def pipeline_def)

section \<open>The runner factories\<close>

text \<open>
  Claim C8. When its playbook path is valid, the meta-runner factory returns no error and
  a handle bound to the meta playbook, the config file and the catalog destination, with
  no inventory; the check-runner factory returns no error and a handle bound to the check
  playbook and the config file, in check mode, with the API host and port and no
  inventory. When the playbook path is not valid, either factory returns an error.
\<close>
theorem runner_factories:
  "(valid (path_Join (AnsibleFolder cfg) AnsibleMeta) \<longrightarrow>
      snd (NewAnsibleMetaRunner valid cfg) = None
      \<and> Playbook (fst (NewAnsibleMetaRunner valid cfg)) = Some (AnsibleFolder cfg @ [''ansible'', ''meta.yml''])
      \<and> ConfigFile (fst (NewAnsibleMetaRunner valid cfg)) = Some (AnsibleFolder cfg @ [''ansible'', ''ansible.cfg''])
      \<and> CatalogDestination (fst (NewAnsibleMetaRunner valid cfg))
          = Some (AnsibleFolder cfg @ [''ansible'', ''catalog.json''])
      \<and> Inventory (fst (NewAnsibleMetaRunner valid cfg)) = None)
   \<and> (valid (path_Join (AnsibleFolder cfg) AnsibleMain) \<longrightarrow>
      snd (NewAnsibleCheckRunner valid cfg) = None
      \<and> Playbook (fst (NewAnsibleCheckRunner valid cfg)) = Some (AnsibleFolder cfg @ [''ansible'', ''check.yml''])
      \<and> ConfigFile (fst (NewAnsibleCheckRunner valid cfg)) = Some (AnsibleFolder cfg @ [''ansible'', ''ansible.cfg''])
      \<and> Check (fst (NewAnsibleCheckRunner valid cfg)) = True
      \<and> TrentoApiData (fst (NewAnsibleCheckRunner valid cfg)) = Some (ApiHost cfg, ApiPort cfg)
      \<and> Inventory (fst (NewAnsibleCheckRunner valid cfg)) = None)
   \<and> (\<not> valid (path_Join (AnsibleFolder cfg) AnsibleMeta) \<longrightarrow>
      snd (NewAnsibleMetaRunner valid cfg)
        = Some (MissingArtifact (AnsibleFolder cfg @ [''ansible'', ''meta.yml''])))
   \<and> (\<not> valid (path_Join (AnsibleFolder cfg) AnsibleMain) \<longrightarrow>
      snd (NewAnsibleCheckRunner valid cfg)
        = Some (MissingArtifact (AnsibleFolder cfg @ [''ansible'', ''check.yml''])))"
  by (simp add: NewAnsibleMetaRunner_def NewAnsibleCheckRunner_def SetPlaybook_def
      SetConfigFile_def SetCatalogDestination_def SetTrentoApiData_def DefaultAnsibleRunner_def
      path_Join_def AnsibleMeta_def AnsibleMain_def AnsibleConfigFile_def
      CatalogDestinationFile_def Let_def)

theorem runner_factories_witness:
  "(\<lambda>p. True) (path_Join (AnsibleFolder example_config) AnsibleMeta)
   \<and> fst (NewAnsibleMetaRunner (\<lambda>p. True) example_config)
       = \<lparr> Playbook = Some [''w'', ''ansible'', ''meta.yml''], Inventory = None,
           ConfigFile = Some [''w'', ''ansible'', ''ansible.cfg''],
           CatalogDestination = Some [''w'', ''ansible'', ''catalog.json''],
           Check = False, TrentoApiData = None \<rparr>
   \<and> only_check_valid (path_Join (AnsibleFolder example_config) AnsibleMain)
   \<and> snd (NewAnsibleCheckRunner only_check_valid example_config) = None
   \<and> Playbook (fst (NewAnsibleCheckRunner only_check_valid example_config))
       = Some [''w'', ''ansible'', ''check.yml'']
   \<and> Check (fst (NewAnsibleCheckRunner only_check_valid example_config))
   \<and> TrentoApiData (fst (NewAnsibleCheckRunner only_check_valid example_config))
       = Some (''trento'', 443)
   \<and> Inventory (fst (NewAnsibleCheckRunner only_check_valid example_config)) = None
   \<and> \<not> only_check_valid (path_Join (AnsibleFolder example_config) AnsibleMeta)
   \<and> snd (NewAnsibleMetaRunner only_check_valid example_config)
       = Some (MissingArtifact [''w'', ''ansible'', ''meta.yml''])
   \<and> \<not> (\<lambda>p. False) (path_Join (AnsibleFolder example_config) AnsibleMain)
   \<and> snd (NewAnsibleCheckRunner (\<lambda>p. False) example_config)
       = Some (MissingArtifact [''w'', ''ansible'', ''check.yml''])"
proof -
  have v: "only_check_valid (path_Join (AnsibleFolder example_config) AnsibleMain)"
     "\<not> only_check_valid (path_Join (AnsibleFolder example_config) AnsibleMeta)"
    by (simp_all add: only_check_valid_def path_Join_def example_config_def AnsibleMain_def AnsibleMeta_def)
  have m: "fst (NewAnsibleMetaRunner (\<lambda>p. True) example_config)
       = \<lparr> Playbook = Some [''w'', ''ansible'', ''meta.yml''], Inventory = None,
           ConfigFile = Some [''w'', ''ansible'', ''ansible.cfg''],
           CatalogDestination = Some [''w'', ''ansible'', ''catalog.json''],
           Check = False, TrentoApiData = None \<rparr>"
    by (simp add: NewAnsibleMetaRunner_def SetPlaybook_def
      SetConfigFile_def SetCatalogDestination_def DefaultAnsibleRunner_def
      path_Join_def AnsibleMeta_def AnsibleConfigFile_def example_config_def
      CatalogDestinationFile_def Let_def)
  show ?thesis
    using v m runner_factories [of "\<lambda>p. True" example_config]
      runner_factories [of only_check_valid example_config]
      runner_factories [of "\<lambda>p. False" example_config]
    by (simp add: example_config_def)
qed

section \<open>The start-up retry and the scheduled loop\<close>

declare Do_loop.simps [simp del]

lemma Do_loop_ok:
  "f n = None \<Longrightarrow> Do_loop opts f cd n errorLog = (None, [EvProbe n])"
  by (subst Do_loop.simps) simp

lemma Do_loop_final:
  "f n = Some err \<Longrightarrow> n = Attempts opts - 1 \<or> (\<not> cd n \<and> \<not> Suc n < Attempts opts) \<Longrightarrow>
   Do_loop opts f cd n errorLog
     = (Some (final_error opts (errorLog @ [err])), [EvProbe n, EvOnRetry n])"
  by (subst Do_loop.simps) auto

lemma Do_loop_cancel:
  "f n = Some err \<Longrightarrow> n \<noteq> Attempts opts - 1 \<Longrightarrow> cd n \<Longrightarrow>
   Do_loop opts f cd n errorLog
     = (Some (cancel_error opts (errorLog @ [err])), [EvProbe n, EvOnRetry n])"
  by (subst Do_loop.simps) simp

lemma Do_loop_rec:
  "f n = Some err \<Longrightarrow> n \<noteq> Attempts opts - 1 \<Longrightarrow> \<not> cd n \<Longrightarrow> Suc n < Attempts opts \<Longrightarrow>
   Do_loop opts f cd n errorLog
     = (fst (Do_loop opts f cd (Suc n) (errorLog @ [err])),
        EvProbe n # EvOnRetry n # snd (Do_loop opts f cd (Suc n) (errorLog @ [err])))"
  by (subst Do_loop.simps) (simp split: prod.splits)

lemma Do_loop_all_fail:
  assumes "LastErrorOnly opts" and "n < Attempts opts"
    and "\<forall>j. n \<le> j \<and> j < Attempts opts \<longrightarrow> f j \<noteq> None"
    and "\<forall>j. n \<le> j \<and> j < Attempts opts - 1 \<longrightarrow> \<not> cd j"
  shows "fst (Do_loop opts f cd n errorLog) = f (Attempts opts - 1)
     \<and> probes (snd (Do_loop opts f cd n errorLog)) = Attempts opts - n"
  using assms
proof (induction opts f cd n errorLog rule: Do_loop.induct)
  case (1 opts f cd n errorLog)
  obtain err where e: "f n = Some err" using "1.prems"(2,3) by (metis le_refl not_None_eq)
  show ?case
  proof (cases "n = Attempts opts - 1")
    case True
    then show ?thesis
      using e "1.prems"(1,2) by (simp add: Do_loop_final final_error_def probes_def)
  next
    case False
    then have lt: "Suc n < Attempts opts" and ncd: "\<not> cd n" using "1.prems"(2,4) by auto
    have ih: "fst (Do_loop opts f cd (Suc n) (errorLog @ [err])) = f (Attempts opts - 1)
       \<and> probes (snd (Do_loop opts f cd (Suc n) (errorLog @ [err]))) = Attempts opts - Suc n"
      using "1.IH" [OF e False ncd lt "1.prems"(1) lt] "1.prems"(3,4) by simp
    show ?thesis
      using ih lt by (simp add: Do_loop_rec [where f=f and n=n and cd=cd, OF e False ncd lt] probes_def)
  qed
qed

lemma Do_loop_success:
  assumes "n \<le> k" and "k < Attempts opts" and "f k = None"
    and "\<forall>j. n \<le> j \<and> j < k \<longrightarrow> f j \<noteq> None \<and> \<not> cd j"
  shows "fst (Do_loop opts f cd n errorLog) = None
     \<and> probes (snd (Do_loop opts f cd n errorLog)) = Suc k - n"
  using assms
proof (induction opts f cd n errorLog rule: Do_loop.induct)
  case (1 opts f cd n errorLog)
  show ?case
  proof (cases "n = k")
    case True
    then show ?thesis using "1.prems"(3) by (simp add: Do_loop_ok probes_def)
  next
    case False
    then have nk: "n < k" using "1.prems"(1) by simp
    then obtain err where e: "f n = Some err" and ncd: "\<not> cd n"
      using "1.prems"(4) by (metis le_refl not_None_eq)
    have ne: "n \<noteq> Attempts opts - 1" and lt: "Suc n < Attempts opts"
      using nk "1.prems"(2) by auto
    have ih: "fst (Do_loop opts f cd (Suc n) (errorLog @ [err])) = None
       \<and> probes (snd (Do_loop opts f cd (Suc n) (errorLog @ [err]))) = Suc k - Suc n"
      using "1.IH" [OF e ne ncd lt _ "1.prems"(2,3)] nk "1.prems"(4) by simp
    show ?thesis
      using ih nk by (simp add: Do_loop_rec [where f=f and n=n and cd=cd, OF e ne ncd lt] probes_def)
  qed
qed

lemma Do_loop_cases:
  obtains (ok) "f n = None"
  | (final) err where "f n = Some err" "n = Attempts opts - 1 \<or> (\<not> cd n \<and> \<not> Suc n < Attempts opts)"
  | (cancel) err where "f n = Some err" "n \<noteq> Attempts opts - 1" "cd n"
  | (rec) err where "f n = Some err" "n \<noteq> Attempts opts - 1" "\<not> cd n" "Suc n < Attempts opts"
  by (cases "f n") auto

lemma Do_loop_probes_le:
  "probes (snd (Do_loop opts f cd n errorLog)) \<le> max 1 (Attempts opts - n)"
proof (induction opts f cd n errorLog rule: Do_loop.induct)
  case (1 opts f cd n errorLog)
  show ?case
  proof (cases rule: Do_loop_cases [where f=f and n=n and opts=opts and cd=cd])
    case ok
    then show ?thesis by (simp add: Do_loop_ok probes_def)
  next
    case (final err)
    then show ?thesis by (simp add: Do_loop_final probes_def)
  next
    case (cancel err)
    then show ?thesis by (simp add: Do_loop_cancel probes_def)
  next
    case (rec err)
    have "probes (snd (Do_loop opts f cd (Suc n) (errorLog @ [err]))) \<le> max 1 (Attempts opts - Suc n)"
      using "1.IH" rec by simp
    then show ?thesis using rec(4) by (simp add: Do_loop_rec [where f=f and n=n and cd=cd, OF rec] probes_def)
  qed
qed

lemma Do_loop_no_spawn:
  "EvSpawnLoop \<notin> set (snd (Do_loop opts f cd n errorLog))"
proof (induction opts f cd n errorLog rule: Do_loop.induct)
  case (1 opts f cd n errorLog)
  show ?case
  proof (cases rule: Do_loop_cases [where f=f and n=n and opts=opts and cd=cd])
    case ok
    then show ?thesis by (simp add: Do_loop_ok)
  next
    case (final err)
    then show ?thesis by (simp add: Do_loop_final)
  next
    case (cancel err)
    then show ?thesis by (simp add: Do_loop_cancel)
  next
    case (rec err)
    have "EvSpawnLoop \<notin> set (snd (Do_loop opts f cd (Suc n) (errorLog @ [err])))"
      using "1.IH" rec by simp
    then show ?thesis by (simp add: Do_loop_rec [where f=f and n=n and cd=cd, OF rec])
  qed
qed

lemma Do_loop_probe_error:
  assumes "LastErrorOnly opts" and "n < Attempts opts"
    and "fst (Do_loop opts f cd n errorLog) = Some e" and "f = probe env"
  shows "e = ContextCanceled
     \<or> (e = ApiNotAvailable \<and> probes (snd (Do_loop opts f cd n errorLog)) = Attempts opts - n)"
  using assms
proof (induction opts f cd n errorLog rule: Do_loop.induct)
  case (1 opts f cd n errorLog)
  have pe: "err = ApiNotAvailable" if "f n = Some err" for err
    using that "1.prems"(4) by (simp add: probe_def split: if_splits)
  show ?case
  proof (cases rule: Do_loop_cases [where f=f and n=n and opts=opts and cd=cd])
    case ok
    then show ?thesis using "1.prems"(3) by (simp add: Do_loop_ok)
  next
    case (final err)
    then show ?thesis using "1.prems"(1,2,3) pe [OF final(1)]
      by (auto simp: Do_loop_final final_error_def probes_def)
  next
    case (cancel err)
    then show ?thesis using "1.prems"(1,3)
      by (simp add: Do_loop_cancel cancel_error_def)
  next
    case (rec err)
    have "fst (Do_loop opts f cd (Suc n) (errorLog @ [err])) = Some e"
      using "1.prems"(3) by (simp add: Do_loop_rec [where f=f and n=n and cd=cd, OF rec])
    then have "e = ContextCanceled \<or> (e = ApiNotAvailable
        \<and> probes (snd (Do_loop opts f cd (Suc n) (errorLog @ [err]))) = Attempts opts - Suc n)"
      using "1.IH" [OF rec "1.prems"(1) rec(4) _ "1.prems"(4)] by simp
    then show ?thesis using rec(4) by (auto simp: Do_loop_rec [where f=f and n=n and cd=cd, OF rec] probes_def)
  qed
qed

lemma tick_ticks_run: "ticks_run (snd (tick m e st)) = 1"
  by (cases st)
     (simp add: tick_def ticks_run_def SetInventory_def Let_def split: option.splits sum.splits)

lemma ticks_run_append: "ticks_run (a @ b) = ticks_run a + ticks_run b"
  by (simp add: ticks_run_def)

lemma Repeat_Suc_continue:
  "\<not> cd k \<Longrightarrow> Repeat (Suc fuel) tk cd k s =
     (fst (Repeat fuel tk cd (Suc k) (fst (tk k s))),
      fst (snd (Repeat fuel tk cd (Suc k) (fst (tk k s)))),
      snd (tk k s) @ snd (snd (Repeat fuel tk cd (Suc k) (fst (tk k s)))))"
  by (simp split: prod.splits)

lemma Repeat_Suc_done:
  "cd k \<Longrightarrow> Repeat (Suc fuel) tk cd k s = (True, fst (tk k s), snd (tk k s))"
  by (simp split: prod.splits)

lemma Repeat_not_cancelled:
  "(\<forall>j<fuel. \<not> cd (k + j)) \<Longrightarrow>
   \<not> fst (Repeat fuel (\<lambda>k. tick m (tks k)) cd k s)
   \<and> ticks_run (snd (snd (Repeat fuel (\<lambda>k. tick m (tks k)) cd k s))) = fuel"
proof (induction fuel arbitrary: k s)
  case 0
  show ?case by (simp add: ticks_run_def)
next
  case (Suc fuel)
  obtain s' tr where t: "tick m (tks k) s = (s', tr)" by (metis prod.exhaust)
  have tr: "ticks_run tr = 1" using tick_ticks_run [of m "tks k" s] t by simp
  have n0: "\<not> cd k" using Suc.prems by (metis add_0_right zero_less_Suc)
  have "\<forall>j<fuel. \<not> cd (Suc k + j)" using Suc.prems by (metis Suc_less_eq add_Suc_shift)
  then have ih: "\<not> fst (Repeat fuel (\<lambda>k. tick m (tks k)) cd (Suc k) s')
     \<and> ticks_run (snd (snd (Repeat fuel (\<lambda>k. tick m (tks k)) cd (Suc k) s'))) = fuel"
    by (rule Suc.IH)
  show ?case using t tr n0 ih
    by (simp only: Repeat_Suc_continue [where cd=cd and k=k, OF n0]) (simp add: ticks_run_append)
qed


lemma tick_check_result_ignored:
  "tick m (e\<lparr>check_result := x\<rparr>) st = tick m e st"
  by (cases st) (simp add: tick_def Let_def split: option.splits sum.splits prod.splits)

lemma startCheckRunnerTicker_valid:
  assumes "loop_valid env (path_Join (AnsibleFolder (config c)) AnsibleMain)"
    and "loop_valid env (path_Join (AnsibleFolder (config c)) AnsibleMeta)"
  shows "startCheckRunnerTicker fuel env c =
     (fst (Repeat fuel (\<lambda>k. tick (fst (NewAnsibleMetaRunner (loop_valid env) (config c))) (ticks env k))
             (ctx_done_after_tick env) 0 (c, fst (NewAnsibleCheckRunner (loop_valid env) (config c)))),
      fst (fst (snd (Repeat fuel (\<lambda>k. tick (fst (NewAnsibleMetaRunner (loop_valid env) (config c))) (ticks env k))
             (ctx_done_after_tick env) 0 (c, fst (NewAnsibleCheckRunner (loop_valid env) (config c)))))),
      EvNewCheckRunner # EvNewMetaRunner #
      snd (snd (Repeat fuel (\<lambda>k. tick (fst (NewAnsibleMetaRunner (loop_valid env) (config c))) (ticks env k))
             (ctx_done_after_tick env) 0 (c, fst (NewAnsibleCheckRunner (loop_valid env) (config c))))))"
proof -
  have cr: "snd (NewAnsibleCheckRunner (loop_valid env) (config c)) = None"
    using assms(1) by (simp add: NewAnsibleCheckRunner_def SetPlaybook_def Let_def)
  have mr: "snd (NewAnsibleMetaRunner (loop_valid env) (config c)) = None"
    using assms(2) by (simp add: NewAnsibleMetaRunner_def SetPlaybook_def Let_def)
  obtain r1 where r1: "NewAnsibleCheckRunner (loop_valid env) (config c) = (r1, None)"
    using cr by (metis prod.collapse)
  obtain r2 where r2: "NewAnsibleMetaRunner (loop_valid env) (config c) = (r2, None)"
    using mr by (metis prod.collapse)
  show ?thesis
    by (simp add: startCheckRunnerTicker_def r1 r2 split: prod.splits)
qed

lemma startCheckRunnerTicker_blocks:
  assumes "loop_valid env (path_Join (AnsibleFolder (config c)) AnsibleMain)"
    and "loop_valid env (path_Join (AnsibleFolder (config c)) AnsibleMeta)"
    and "\<forall>j<fuel. \<not> ctx_done_after_tick env j"
  shows "\<not> fst (startCheckRunnerTicker fuel env c)
     \<and> ticks_run (snd (snd (startCheckRunnerTicker fuel env c))) = fuel"
  using Repeat_not_cancelled [of fuel "ctx_done_after_tick env" 0
      "fst (NewAnsibleMetaRunner (loop_valid env) (config c))" "ticks env"
      "(c, fst (NewAnsibleCheckRunner (loop_valid env) (config c)))"] assms(3)
  by (simp add: startCheckRunnerTicker_valid [OF assms(1,2)] ticks_run_def)


lemma Repeat_events:
  assumes "\<And>k s. set (snd (tk k s)) \<subseteq> A"
  shows "set (snd (snd (Repeat fuel tk cd k s))) \<subseteq> A"
proof (induction fuel arbitrary: k s)
  case 0
  show ?case by simp
next
  case (Suc fuel)
  show ?case
  proof (cases "cd k")
    case True
    then show ?thesis using assms [of k s]
      by (simp only: Repeat_Suc_done [where cd=cd and k=k, OF True]) simp
  next
    case False
    then show ?thesis using assms [of k s] Suc.IH [of "Suc k" "fst (tk k s)"]
      by (simp only: Repeat_Suc_continue [where cd=cd and k=k, OF False]) simp
  qed
qed

lemma tick_events: "set (snd (tick m e st)) \<subseteq> {ev. stage_of ev \<noteq> None}"
  by (cases st)
     (auto simp: tick_def SetInventory_def Let_def split: option.splits sum.splits if_splits)

lemma startCheckRunnerTicker_events:
  "set (snd (snd (startCheckRunnerTicker fuel env c)))
     \<subseteq> {EvNewCheckRunner, EvNewMetaRunner} \<union> {ev. stage_of ev \<noteq> None}"
proof -
  have r: "set (snd (snd (Repeat fuel (\<lambda>k. tick m (ticks env k)) (ctx_done_after_tick env) 0 s)))
      \<subseteq> {ev. stage_of ev \<noteq> None}" for m s
    by (rule Repeat_events) (rule tick_events)
  obtain cr e1 where cr: "NewAnsibleCheckRunner (loop_valid env) (config c) = (cr, e1)"
    by (metis prod.exhaust)
  obtain mr e2 where mr: "NewAnsibleMetaRunner (loop_valid env) (config c) = (mr, e2)"
    by (metis prod.exhaust)
  obtain b c' r' tr where rp: "Repeat fuel (\<lambda>k. tick mr (ticks env k)) (ctx_done_after_tick env) 0 (c, cr)
      = (b, (c', r'), tr)"
    by (metis prod.exhaust)
  have "set tr \<subseteq> {ev. stage_of ev \<noteq> None}" using r [of mr "(c, cr)"] rp by simp
  then show ?thesis
    by (cases e1; cases e2) (auto simp: startCheckRunnerTicker_def cr mr rp)
qed

lemma startCheckRunnerTicker_probes: "probes (snd (snd (startCheckRunnerTicker fuel env c))) = 0"
proof -
  have "\<not> is_probe ev" if "ev \<in> set (snd (snd (startCheckRunnerTicker fuel env c)))" for ev
    using startCheckRunnerTicker_events [of fuel env c] that by (cases ev) auto
  then show ?thesis by (simp add: probes_def)
qed

lemma retry_Do_no_spawn: "EvSpawnLoop \<notin> set (snd (retry_Do opts f env))"
  by (simp add: retry_Do_def Do_loop_no_spawn)

lemma retry_Do_probes_le: "probes (snd (retry_Do start_retry_options f env)) \<le> 8"
  using Do_loop_probes_le [of start_retry_options f "ctx_done_in_wait env" 0 "[]"]
  by (simp add: retry_Do_def start_retry_options_def probes_def)

lemma retry_Do_ticks: "ticks_run (snd (retry_Do opts f env)) = 0"
proof -
  have "stage_of ev = None" if "ev \<in> set (snd (Do_loop opts f cd n errorLog))" for ev cd n errorLog
    using that
  proof (induction opts f cd n errorLog rule: Do_loop.induct)
    case (1 opts f cd n errorLog)
    show ?case
    proof (cases rule: Do_loop_cases [where f=f and n=n and opts=opts and cd=cd])
      case ok
      then show ?thesis using "1.prems" by (auto simp: Do_loop_ok)
    next
      case (final err)
      then show ?thesis using "1.prems" by (auto simp: Do_loop_final)
    next
      case (cancel err)
      then show ?thesis using "1.prems" by (auto simp: Do_loop_cancel)
    next
      case (rec err)
      then show ?thesis using "1.prems" "1.IH" [OF rec]
        by (auto simp: Do_loop_rec [where f=f and n=n and cd=cd, OF rec])
    qed
  qed
  then show ?thesis by (auto simp: retry_Do_def ticks_run_def filter_empty_conv)
qed

text \<open>The three ways through \<open>Start\<close>.\<close>

lemma Start_provision_fails:
  assumes "fst (createAnsibleFiles (start_faults env) tmpl (AnsibleFolder (config c)) fs) = Some e"
  shows "Start fuel env tmpl fs c =
     (Returns (Some e), snd (createAnsibleFiles (start_faults env) tmpl (AnsibleFolder (config c)) fs),
      c, [EvProvision (AnsibleFolder (config c))])"
  using assms
  by (cases "createAnsibleFiles (start_faults env) tmpl (AnsibleFolder (config c)) fs")
     (simp add: Start_def)

lemma Start_retry_fails:
  assumes "fst (createAnsibleFiles (start_faults env) tmpl (AnsibleFolder (config c)) fs) = None"
    and "fst (retry_Do start_retry_options (probe (start_retry env)) (start_retry env)) = Some e"
  shows "Start fuel env tmpl fs c =
     (Returns (Some e), snd (createAnsibleFiles (start_faults env) tmpl (AnsibleFolder (config c)) fs),
      c, EvProvision (AnsibleFolder (config c))
         # snd (retry_Do start_retry_options (probe (start_retry env)) (start_retry env)))"
  using assms
  by (cases "createAnsibleFiles (start_faults env) tmpl (AnsibleFolder (config c)) fs";
      cases "retry_Do start_retry_options (probe (start_retry env)) (start_retry env)")
     (simp add: Start_def)

lemma Start_started:
  assumes "fst (createAnsibleFiles (start_faults env) tmpl (AnsibleFolder (config c)) fs) = None"
    and "fst (retry_Do start_retry_options (probe (start_retry env)) (start_retry env)) = None"
  shows "Start fuel env tmpl fs c =
     (if fst (startCheckRunnerTicker fuel (start_loop env)
            (c\<lparr>trentoApi := Some (NewTrentoApiService (ApiHost (config c)) (ApiPort (config c)))\<rparr>))
      then Returns None else Blocks,
      snd (createAnsibleFiles (start_faults env) tmpl (AnsibleFolder (config c)) fs),
      fst (snd (startCheckRunnerTicker fuel (start_loop env)
            (c\<lparr>trentoApi := Some (NewTrentoApiService (ApiHost (config c)) (ApiPort (config c)))\<rparr>))),
      EvProvision (AnsibleFolder (config c))
        # snd (retry_Do start_retry_options (probe (start_retry env)) (start_retry env))
        @ EvSpawnLoop
        # snd (snd (startCheckRunnerTicker fuel (start_loop env)
            (c\<lparr>trentoApi := Some (NewTrentoApiService (ApiHost (config c)) (ApiPort (config c)))\<rparr>))))"
  using assms
  by (cases "createAnsibleFiles (start_faults env) tmpl (AnsibleFolder (config c)) fs";
      cases "retry_Do start_retry_options (probe (start_retry env)) (start_retry env)")
     (simp add: Start_def Let_def split: prod.splits)

lemma Start_cases:
  obtains (provision) e where
      "fst (createAnsibleFiles (start_faults env) tmpl (AnsibleFolder (config c)) fs) = Some e"
  | (retry) e where
      "fst (createAnsibleFiles (start_faults env) tmpl (AnsibleFolder (config c)) fs) = None"
      "fst (retry_Do start_retry_options (probe (start_retry env)) (start_retry env)) = Some e"
  | (started)
      "fst (createAnsibleFiles (start_faults env) tmpl (AnsibleFolder (config c)) fs) = None"
      "fst (retry_Do start_retry_options (probe (start_retry env)) (start_retry env)) = None"
  by (cases "fst (createAnsibleFiles (start_faults env) tmpl (AnsibleFolder (config c)) fs)";
      cases "fst (retry_Do start_retry_options (probe (start_retry env)) (start_retry env))") auto

lemma Start_probes:
  "probes (snd (snd (snd (Start fuel env tmpl fs c))))
     = (if fst (createAnsibleFiles (start_faults env) tmpl (AnsibleFolder (config c)) fs) = None
        then probes (snd (retry_Do start_retry_options (probe (start_retry env)) (start_retry env)))
        else 0)"
proof (cases rule: Start_cases [of env tmpl c fs])
  case (provision e)
  then show ?thesis by (simp add: Start_provision_fails probes_def)
next
  case (retry e)
  then show ?thesis by (simp add: Start_retry_fails probes_def)
next
  case started
  then show ?thesis
    using startCheckRunnerTicker_probes
    by (simp add: Start_started probes_def)
qed

lemma retry_Do_all_fail:
  assumes "\<not> ctx_done_at_start env" and "\<forall>n<8. \<not> web_server_up env n"
    and "\<forall>n<7. \<not> ctx_done_in_wait env n"
  shows "fst (retry_Do start_retry_options (probe env) env) = Some ApiNotAvailable
     \<and> probes (snd (retry_Do start_retry_options (probe env) env)) = 8"
proof -
  have "fst (Do_loop start_retry_options (probe env) (ctx_done_in_wait env) 0 []) = probe env (Attempts start_retry_options - 1)
     \<and> probes (snd (Do_loop start_retry_options (probe env) (ctx_done_in_wait env) 0 [])) = Attempts start_retry_options - 0"
    by (rule Do_loop_all_fail) (use assms in \<open>auto simp: start_retry_options_def probe_def\<close>)
  then show ?thesis using assms(1,2) by (simp add: retry_Do_def start_retry_options_def probe_def)
qed

lemma retry_Do_success:
  assumes "\<not> ctx_done_at_start env" and "k < 8" and "web_server_up env k"
    and "\<forall>n<k. \<not> web_server_up env n \<and> \<not> ctx_done_in_wait env n"
  shows "fst (retry_Do start_retry_options (probe env) env) = None
     \<and> probes (snd (retry_Do start_retry_options (probe env) env)) = Suc k"
proof -
  have "fst (Do_loop start_retry_options (probe env) (ctx_done_in_wait env) 0 []) = None
     \<and> probes (snd (Do_loop start_retry_options (probe env) (ctx_done_in_wait env) 0 [])) = Suc k - 0"
    by (rule Do_loop_success) (use assms in \<open>auto simp: start_retry_options_def probe_def\<close>)
  then show ?thesis using assms(1) by (simp add: retry_Do_def)
qed

lemma retry_Do_error:
  assumes "fst (retry_Do start_retry_options (probe env) env) = Some e"
  shows "e = ContextCanceled
     \<or> (e = ApiNotAvailable \<and> probes (snd (retry_Do start_retry_options (probe env) env)) = 8)"
proof (cases "ctx_done_at_start env")
  case True
  then show ?thesis using assms by (simp add: retry_Do_def)
next
  case False
  have "e = ContextCanceled \<or> (e = ApiNotAvailable
     \<and> probes (snd (Do_loop start_retry_options (probe env) (ctx_done_in_wait env) 0 []))
          = Attempts start_retry_options - 0)"
    by (rule Do_loop_probe_error [where env=env])
       (use assms False in \<open>auto simp: start_retry_options_def retry_Do_def\<close>)
  then show ?thesis using False by (simp add: retry_Do_def start_retry_options_def)
qed

lemma Do_loop_never_succeeds:
  assumes "n < Attempts opts" and "\<forall>j. n \<le> j \<and> j < Attempts opts \<longrightarrow> f j \<noteq> None"
  shows "fst (Do_loop opts f cd n errorLog) \<noteq> None"
  using assms
proof (induction opts f cd n errorLog rule: Do_loop.induct)
  case (1 opts f cd n errorLog)
  show ?case
  proof (cases rule: Do_loop_cases [where f=f and n=n and opts=opts and cd=cd])
    case ok
    then show ?thesis using "1.prems" by auto
  next
    case (final err)
    then show ?thesis by (simp add: Do_loop_final)
  next
    case (cancel err)
    then show ?thesis by (simp add: Do_loop_cancel)
  next
    case (rec err)
    have "fst (Do_loop opts f cd (Suc n) (errorLog @ [err])) \<noteq> None"
      using "1.IH" [OF rec rec(4)] "1.prems"(2) by simp
    then show ?thesis by (simp add: Do_loop_rec [where f=f and n=n and cd=cd, OF rec])
  qed
qed

lemma retry_Do_never_succeeds:
  assumes "\<forall>n<8. \<not> web_server_up env n"
  shows "fst (retry_Do start_retry_options (probe env) env) \<noteq> None"
proof (cases "ctx_done_at_start env")
  case True
  then show ?thesis by (simp add: retry_Do_def)
next
  case False
  have "fst (Do_loop start_retry_options (probe env) (ctx_done_in_wait env) 0 []) \<noteq> None"
    by (rule Do_loop_never_succeeds)
       (use assms in \<open>auto simp: start_retry_options_def probe_def\<close>)
  then show ?thesis using False by (simp add: retry_Do_def)
qed

lemma new_service_folder: "AnsibleFolder (config new_service) = [''w'']"
  by (simp add: new_service_def NewRunnerService_def example_config_def)

lemma Repeat_ticks_ge:
  "n \<le> fuel \<Longrightarrow> (\<forall>j. Suc j < n \<longrightarrow> \<not> cd (k + j)) \<Longrightarrow>
   n \<le> ticks_run (snd (snd (Repeat fuel (\<lambda>k. tick m (tks k)) cd k s)))"
proof (induction fuel arbitrary: n k s)
  case 0
  then show ?case by simp
next
  case (Suc fuel)
  have t: "ticks_run (snd (tick m (tks k) s)) = 1" by (rule tick_ticks_run)
  show ?case
  proof (cases n)
    case 0
    then show ?thesis by simp
  next
    case (Suc n')
    show ?thesis
    proof (cases "cd k")
      case True
      then have "n' = 0" using Suc.prems(2) Suc by (cases n') auto
      then show ?thesis using t Suc
        by (simp only: Repeat_Suc_done [where cd=cd and k=k, OF True]) simp
    next
      case False
      have "\<not> cd (Suc k + j)" if "Suc j < n'" for j
        using Suc.prems(2) Suc that by (metis Suc_less_eq add_Suc_shift)
      then have "n' \<le> ticks_run (snd (snd (Repeat fuel (\<lambda>k. tick m (tks k)) cd (Suc k)
               (fst (tick m (tks k) s)))))"
        using Suc.IH [of n' "Suc k" "fst (tick m (tks k) s)"] Suc.prems(1) Suc by simp
      then show ?thesis using t Suc
        by (simp only: Repeat_Suc_continue [where cd=cd and k=k, OF False])
           (simp add: ticks_run_append)
    qed
  qed
qed

lemma ticks_check_result_ignored:
  "(\<lambda>k. tick m ((tks k)\<lparr>check_result := rs k\<rparr>)) = (\<lambda>k. tick m (tks k))"
  by (rule ext)+ (simp add: tick_check_result_ignored)

lemma startCheckRunnerTicker_check_result_ignored:
  "startCheckRunnerTicker fuel (lenv\<lparr>ticks := \<lambda>k. (ticks lenv k)\<lparr>check_result := rs k\<rparr>\<rparr>) c
     = startCheckRunnerTicker fuel lenv c"
  unfolding startCheckRunnerTicker_def
  by (simp add: ticks_check_result_ignored cong: prod.case_cong option.case_cong)

lemma Start_check_result_ignored:
  "Start fuel (senv\<lparr>start_loop :=
          (start_loop senv)\<lparr>ticks := \<lambda>k. (ticks (start_loop senv) k)\<lparr>check_result := rs k\<rparr>\<rparr>\<rparr>)
        tmpl fs c
       = Start fuel senv tmpl fs c"
  unfolding Start_def
  by (simp add: startCheckRunnerTicker_check_result_ignored cong: prod.case_cong option.case_cong)





section \<open>\<open>Start\<close>\<close>

text \<open>
  Claim C5. \<open>Start\<close> retries the liveness probe with a base delay of 2 s, a jitter of at
  most 3 s and at most 8 attempts, returning the last error only. When all 8 attempts
  take place and fail, \<open>Start\<close> returns the error of the last attempt and never spawns
  the pipeline loop; whenever no attempt can succeed, \<open>Start\<close> returns an error (the
  last attempt's after 8 probes, or the context's) and never spawns the loop; when
  attempt \<open>k < 8\<close> is the first to succeed, \<open>Start\<close> makes \<open>k + 1\<close> probes, spawns
  the loop and returns no error for the failures before.
\<close>
theorem Start_liveness_retry:
  "start_retry_options = \<lparr> Delay = 2000, MaxJitter = 3000, Attempts = 8, LastErrorOnly = True \<rparr>
   \<and> probes (snd (snd (snd (Start fuel env tmpl fs c)))) \<le> 8
   \<and> (fst (createAnsibleFiles (start_faults env) tmpl (AnsibleFolder (config c)) fs) = None
        \<and> \<not> ctx_done_at_start (start_retry env)
        \<and> (\<forall>n<8. \<not> web_server_up (start_retry env) n)
        \<and> (\<forall>n<7. \<not> ctx_done_in_wait (start_retry env) n) \<longrightarrow>
        fst (Start fuel env tmpl fs c) = Returns (Some ApiNotAvailable)
        \<and> probes (snd (snd (snd (Start fuel env tmpl fs c)))) = 8
        \<and> EvSpawnLoop \<notin> set (snd (snd (snd (Start fuel env tmpl fs c))))
        \<and> ticks_run (snd (snd (snd (Start fuel env tmpl fs c)))) = 0)
   \<and> (fst (createAnsibleFiles (start_faults env) tmpl (AnsibleFolder (config c)) fs) = None
        \<and> (\<forall>n<8. \<not> web_server_up (start_retry env) n) \<longrightarrow>
        (fst (Start fuel env tmpl fs c) = Returns (Some ContextCanceled)
         \<or> fst (Start fuel env tmpl fs c) = Returns (Some ApiNotAvailable)
           \<and> probes (snd (snd (snd (Start fuel env tmpl fs c)))) = 8)
        \<and> EvSpawnLoop \<notin> set (snd (snd (snd (Start fuel env tmpl fs c))))
        \<and> ticks_run (snd (snd (snd (Start fuel env tmpl fs c)))) = 0)
   \<and> (fst (createAnsibleFiles (start_faults env) tmpl (AnsibleFolder (config c)) fs) = None
        \<and> \<not> ctx_done_at_start (start_retry env)
        \<and> k < 8 \<and> web_server_up (start_retry env) k
        \<and> (\<forall>n<k. \<not> web_server_up (start_retry env) n \<and> \<not> ctx_done_in_wait (start_retry env) n) \<longrightarrow>
        (\<forall>e. fst (Start fuel env tmpl fs c) \<noteq> Returns (Some e))
        \<and> probes (snd (snd (snd (Start fuel env tmpl fs c)))) = Suc k
        \<and> EvSpawnLoop \<in> set (snd (snd (snd (Start fuel env tmpl fs c))))
        \<and> trentoApi (fst (snd (snd (Start fuel env tmpl fs c))))
            = Some (ApiHost (config c), ApiPort (config c)))"
proof -
  have o: "start_retry_options = \<lparr> Delay = 2000, MaxJitter = 3000, Attempts = 8, LastErrorOnly = True \<rparr>"
    by (simp add: start_retry_options_def)
  have p: "probes (snd (snd (snd (Start fuel env tmpl fs c)))) \<le> 8"
    using retry_Do_probes_le [of "probe (start_retry env)" "start_retry env"]
    by (simp add: Start_probes)
  have a: "fst (Start fuel env tmpl fs c) = Returns (Some ApiNotAvailable)
        \<and> probes (snd (snd (snd (Start fuel env tmpl fs c)))) = 8
        \<and> EvSpawnLoop \<notin> set (snd (snd (snd (Start fuel env tmpl fs c))))
        \<and> ticks_run (snd (snd (snd (Start fuel env tmpl fs c)))) = 0"
    if h: "fst (createAnsibleFiles (start_faults env) tmpl (AnsibleFolder (config c)) fs) = None
        \<and> \<not> ctx_done_at_start (start_retry env)
        \<and> (\<forall>n<8. \<not> web_server_up (start_retry env) n)
        \<and> (\<forall>n<7. \<not> ctx_done_in_wait (start_retry env) n)"
  proof -
    have r: "fst (retry_Do start_retry_options (probe (start_retry env)) (start_retry env)) = Some ApiNotAvailable
       \<and> probes (snd (retry_Do start_retry_options (probe (start_retry env)) (start_retry env))) = 8"
      using h by (intro retry_Do_all_fail) auto
    have s: "Start fuel env tmpl fs c =
     (Returns (Some ApiNotAvailable), snd (createAnsibleFiles (start_faults env) tmpl (AnsibleFolder (config c)) fs),
      c, EvProvision (AnsibleFolder (config c))
         # snd (retry_Do start_retry_options (probe (start_retry env)) (start_retry env)))"
      using h r by (intro Start_retry_fails) auto
    have t: "ticks_run (EvProvision (AnsibleFolder (config c))
         # snd (retry_Do start_retry_options (probe (start_retry env)) (start_retry env))) = 0"
      using retry_Do_ticks [of start_retry_options "probe (start_retry env)" "start_retry env"]
      by (simp add: ticks_run_def)
    show ?thesis
      using r t retry_Do_no_spawn [of start_retry_options "probe (start_retry env)" "start_retry env"]
      by (simp add: s) (simp add: probes_def)
  qed
  have a': "(fst (Start fuel env tmpl fs c) = Returns (Some ContextCanceled)
         \<or> fst (Start fuel env tmpl fs c) = Returns (Some ApiNotAvailable)
           \<and> probes (snd (snd (snd (Start fuel env tmpl fs c)))) = 8)
        \<and> EvSpawnLoop \<notin> set (snd (snd (snd (Start fuel env tmpl fs c))))
        \<and> ticks_run (snd (snd (snd (Start fuel env tmpl fs c)))) = 0"
    if h: "fst (createAnsibleFiles (start_faults env) tmpl (AnsibleFolder (config c)) fs) = None
        \<and> (\<forall>n<8. \<not> web_server_up (start_retry env) n)"
  proof -
    obtain e where r: "fst (retry_Do start_retry_options (probe (start_retry env)) (start_retry env)) = Some e"
      using retry_Do_never_succeeds [of "start_retry env"] h by auto
    have p: "fst (createAnsibleFiles (start_faults env) tmpl (AnsibleFolder (config c)) fs) = None"
      using h by simp
    have t: "ticks_run (snd (retry_Do start_retry_options (probe (start_retry env)) (start_retry env))) = 0"
      by (rule retry_Do_ticks)
    show ?thesis
      using retry_Do_error [OF r] t
        retry_Do_no_spawn [of start_retry_options "probe (start_retry env)" "start_retry env"]
      by (simp add: Start_retry_fails [OF p r]) (auto simp: probes_def ticks_run_def)
  qed
  have b: "(\<forall>e. fst (Start fuel env tmpl fs c) \<noteq> Returns (Some e))
        \<and> probes (snd (snd (snd (Start fuel env tmpl fs c)))) = Suc k
        \<and> EvSpawnLoop \<in> set (snd (snd (snd (Start fuel env tmpl fs c))))
        \<and> trentoApi (fst (snd (snd (Start fuel env tmpl fs c))))
            = Some (ApiHost (config c), ApiPort (config c))"
    if h: "fst (createAnsibleFiles (start_faults env) tmpl (AnsibleFolder (config c)) fs) = None
        \<and> \<not> ctx_done_at_start (start_retry env)
        \<and> k < 8 \<and> web_server_up (start_retry env) k
        \<and> (\<forall>n<k. \<not> web_server_up (start_retry env) n \<and> \<not> ctx_done_in_wait (start_retry env) n)"
  proof -
    have r: "fst (retry_Do start_retry_options (probe (start_retry env)) (start_retry env)) = None
       \<and> probes (snd (retry_Do start_retry_options (probe (start_retry env)) (start_retry env))) = Suc k"
      using h by (intro retry_Do_success) auto
    have s: "fst (createAnsibleFiles (start_faults env) tmpl (AnsibleFolder (config c)) fs) = None"
      using h by simp
    show ?thesis
      using r startCheckRunnerTicker_probes
      by (simp add: Start_started [OF s conjunct1 [OF r]] startCheckRunnerTicker_service
          NewTrentoApiService_def)
         (simp add: probes_def)
  qed
  show ?thesis using o p a a' b by blast
qed

theorem Start_liveness_retry_witness:
  "(fst (createAnsibleFiles (start_faults start_all_down) example_template
          (AnsibleFolder (config new_service)) Map.empty) = None
    \<and> \<not> ctx_done_at_start (start_retry start_all_down)
    \<and> web_server_up (start_retry start_all_down) = (\<lambda>n. False)
    \<and> ctx_done_in_wait (start_retry start_all_down) = (\<lambda>n. False))
   \<and> fst (Start 5 start_all_down example_template Map.empty new_service)
       = Returns (Some ApiNotAvailable)
   \<and> probes (snd (snd (snd (Start 5 start_all_down example_template Map.empty new_service)))) = 8
   \<and> EvSpawnLoop \<notin> set (snd (snd (snd (Start 5 start_all_down example_template Map.empty new_service))))
   \<and> (fst (createAnsibleFiles (start_faults start_cancelled_in_retry) example_template
          (AnsibleFolder (config new_service)) Map.empty) = None
    \<and> web_server_up (start_retry start_cancelled_in_retry) = (\<lambda>n. False)
    \<and> ctx_done_in_wait (start_retry start_cancelled_in_retry) = (\<lambda>n. True))
   \<and> EvSpawnLoop \<notin> set (snd (snd (snd (Start 5 start_cancelled_in_retry example_template
         Map.empty new_service))))
   \<and> (fst (createAnsibleFiles (start_faults start_up_at_3) example_template
          (AnsibleFolder (config new_service)) Map.empty) = None
    \<and> \<not> ctx_done_at_start (start_retry start_up_at_3)
    \<and> (3::nat) < 8 \<and> web_server_up (start_retry start_up_at_3) 3
    \<and> web_server_up (start_retry start_up_at_3) = (\<lambda>n. 3 \<le> n)
    \<and> ctx_done_in_wait (start_retry start_up_at_3) = (\<lambda>n. False))
   \<and> fst (Start 5 start_up_at_3 example_template Map.empty new_service) = Blocks
   \<and> probes (snd (snd (snd (Start 5 start_up_at_3 example_template Map.empty new_service)))) = 4
   \<and> EvSpawnLoop \<in> set (snd (snd (snd (Start 5 start_up_at_3 example_template Map.empty new_service))))"
proof -
  have h1: "fst (createAnsibleFiles (start_faults start_all_down) example_template
          (AnsibleFolder (config new_service)) Map.empty) = None
    \<and> \<not> ctx_done_at_start (start_retry start_all_down)
    \<and> (\<forall>n<8. \<not> web_server_up (start_retry start_all_down) n)
    \<and> (\<forall>n<7. \<not> ctx_done_in_wait (start_retry start_all_down) n)"
    using provision_ok_eval
    by (simp add: start_all_down_def retry_down_def new_service_folder)
  have h2: "fst (createAnsibleFiles (start_faults start_up_at_3) example_template
          (AnsibleFolder (config new_service)) Map.empty) = None
    \<and> \<not> ctx_done_at_start (start_retry start_up_at_3)
    \<and> (3::nat) < 8 \<and> web_server_up (start_retry start_up_at_3) 3
    \<and> (\<forall>n<3. \<not> web_server_up (start_retry start_up_at_3) n
          \<and> \<not> ctx_done_in_wait (start_retry start_up_at_3) n)"
    using provision_ok_eval
    by (simp add: start_up_at_3_def retry_up_at_3_def new_service_folder)
  have r: "fst (retry_Do start_retry_options (probe (start_retry start_up_at_3)) (start_retry start_up_at_3)) = None"
    using retry_Do_success [of "start_retry start_up_at_3" 3] h2 by simp
  have b: "\<not> fst (startCheckRunnerTicker 5 (start_loop start_up_at_3) c)" for c
    using startCheckRunnerTicker_blocks [of "start_loop start_up_at_3" c 5]
    by (simp add: start_up_at_3_def loop_check_fails_def)
  have s: "fst (Start 5 start_up_at_3 example_template Map.empty new_service) = Blocks"
    using b by (simp add: Start_started [OF conjunct1 [OF h2] r])
  have e: "web_server_up (start_retry start_all_down) = (\<lambda>n. False)
      \<and> ctx_done_in_wait (start_retry start_all_down) = (\<lambda>n. False)
      \<and> web_server_up (start_retry start_up_at_3) = (\<lambda>n. 3 \<le> n)
      \<and> ctx_done_in_wait (start_retry start_up_at_3) = (\<lambda>n. False)"
    by (simp add: start_all_down_def retry_down_def start_up_at_3_def retry_up_at_3_def)
  have h3: "fst (createAnsibleFiles (start_faults start_cancelled_in_retry) example_template
          (AnsibleFolder (config new_service)) Map.empty) = None
    \<and> web_server_up (start_retry start_cancelled_in_retry) = (\<lambda>n. False)
    \<and> ctx_done_in_wait (start_retry start_cancelled_in_retry) = (\<lambda>n. True)"
    using provision_ok_eval
    by (simp add: start_cancelled_in_retry_def retry_cancelled_def new_service_folder)
  show ?thesis
    using h1 h2 h3 s e
      Start_liveness_retry [of 5 start_cancelled_in_retry example_template Map.empty new_service 3]
      Start_liveness_retry [of 5 start_all_down example_template Map.empty new_service 3]
      Start_liveness_retry [of 5 start_up_at_3 example_template Map.empty new_service 3]
    by simp
qed

text \<open>
  Claim C6. What the check playbook returns is dropped: a tick ends in the same state with
  the same events whatever the check stage returns, the readiness flag is as before, and
  the loop and \<open>Start\<close> behave the same for every choice of check results. While the
  context is not cancelled the next tick runs: after tick \<open>k\<close>, tick \<open>k + 1\<close> is run,
  and the loop has not returned.
\<close>
theorem check_failure_only_observed:
  "tick metaRunner (env\<lparr>check_result := r\<rparr>) st = tick metaRunner env st
   \<and> IsCatalogReady (fst (fst (tick metaRunner env (c, checkRunner)))) = IsCatalogReady c
   \<and> startCheckRunnerTicker fuel (lenv\<lparr>ticks := \<lambda>k. (ticks lenv k)\<lparr>check_result := rs k\<rparr>\<rparr>) c
       = startCheckRunnerTicker fuel lenv c
   \<and> Start fuel (senv\<lparr>start_loop :=
          (start_loop senv)\<lparr>ticks := \<lambda>k. (ticks (start_loop senv) k)\<lparr>check_result := rs k\<rparr>\<rparr>\<rparr>)
        tmpl fs c
       = Start fuel senv tmpl fs c
   \<and> (Suc k < fuel \<and> (\<forall>j\<le>k. \<not> cd j) \<longrightarrow>
        Suc (Suc k) \<le> ticks_run (snd (snd (Repeat fuel (\<lambda>i. tick metaRunner (tks i)) cd 0 st))))
   \<and> ((\<forall>j<fuel. \<not> cd j) \<longrightarrow>
        \<not> fst (Repeat fuel (\<lambda>i. tick metaRunner (tks i)) cd 0 st)
        \<and> ticks_run (snd (snd (Repeat fuel (\<lambda>i. tick metaRunner (tks i)) cd 0 st))) = fuel)"
proof -
  have a: "tick metaRunner (env\<lparr>check_result := r\<rparr>) st = tick metaRunner env st"
    by (rule tick_check_result_ignored)
  have b: "IsCatalogReady (fst (fst (tick metaRunner env (c, checkRunner)))) = IsCatalogReady c"
    by (simp add: tick_service)
  have d: "startCheckRunnerTicker fuel (lenv\<lparr>ticks := \<lambda>k. (ticks lenv k)\<lparr>check_result := rs k\<rparr>\<rparr>) c
       = startCheckRunnerTicker fuel lenv c"
    by (rule startCheckRunnerTicker_check_result_ignored)
  have e: "Start fuel (senv\<lparr>start_loop :=
          (start_loop senv)\<lparr>ticks := \<lambda>k. (ticks (start_loop senv) k)\<lparr>check_result := rs k\<rparr>\<rparr>\<rparr>)
        tmpl fs c
       = Start fuel senv tmpl fs c"
    by (rule Start_check_result_ignored)
  have f: "Suc (Suc k) \<le> ticks_run (snd (snd (Repeat fuel (\<lambda>i. tick metaRunner (tks i)) cd 0 st)))"
    if "Suc k < fuel \<and> (\<forall>j\<le>k. \<not> cd j)"
    using Repeat_ticks_ge [of "Suc (Suc k)" fuel cd 0 metaRunner tks st] that by simp
  have g: "\<not> fst (Repeat fuel (\<lambda>i. tick metaRunner (tks i)) cd 0 st)
        \<and> ticks_run (snd (snd (Repeat fuel (\<lambda>i. tick metaRunner (tks i)) cd 0 st))) = fuel"
    if "\<forall>j<fuel. \<not> cd j"
    using Repeat_not_cancelled [of fuel cd 0 metaRunner tks st] that by simp
  show ?thesis using a b d e f g by blast
qed

theorem check_failure_only_observed_witness:
  "check_result tick_check_fails = Some (External ''check playbook failed'')
   \<and> tick DefaultAnsibleRunner tick_check_fails (new_service, DefaultAnsibleRunner)
       = tick DefaultAnsibleRunner tick_ok (new_service, DefaultAnsibleRunner)
   \<and> ctx_done_after_tick loop_check_fails = (\<lambda>k. False)
   \<and> Suc 0 < (3::nat)
   \<and> Suc (Suc 0) \<le> ticks_run (snd (snd (Repeat 3
         (\<lambda>i. tick DefaultAnsibleRunner (ticks loop_check_fails i))
         (ctx_done_after_tick loop_check_fails) 0 (new_service, DefaultAnsibleRunner))))
   \<and> \<not> fst (Repeat 3 (\<lambda>i. tick DefaultAnsibleRunner (ticks loop_check_fails i))
         (ctx_done_after_tick loop_check_fails) 0 (new_service, DefaultAnsibleRunner))
   \<and> ticks_run (snd (snd (Repeat 3 (\<lambda>i. tick DefaultAnsibleRunner (ticks loop_check_fails i))
         (ctx_done_after_tick loop_check_fails) 0 (new_service, DefaultAnsibleRunner)))) = 3"
proof -
  have u: "tick_ok\<lparr>check_result := Some (External ''check playbook failed'')\<rparr> = tick_check_fails"
    by (simp add: tick_ok_def tick_check_fails_def)
  have h: "(\<forall>j\<le>0. \<not> ctx_done_after_tick loop_check_fails j)
     \<and> (\<forall>j<3. \<not> ctx_done_after_tick loop_check_fails j)"
    by (simp add: loop_check_fails_def)
  have e: "ctx_done_after_tick loop_check_fails = (\<lambda>k. False)"
    by (simp add: loop_check_fails_def)
  show ?thesis
    using u h e
      check_failure_only_observed [where metaRunner=DefaultAnsibleRunner and env=tick_ok
        and r="Some (External ''check playbook failed'')" and st="(new_service, DefaultAnsibleRunner)"
        and c=new_service and checkRunner=DefaultAnsibleRunner and fuel=3 and lenv=loop_check_fails
        and rs="\<lambda>k. None" and senv=start_all_down and tmpl=example_template and fs=Map.empty
        and k=0 and cd="ctx_done_after_tick loop_check_fails" and tks="ticks loop_check_fails"]
    by (simp add: tick_check_fails_def)
qed





section \<open>The provisioner and a failed write\<close>

text \<open>
  Claim C3 does not hold of the code: \<open>createAnsibleFiles\<close> drops the result of
  \<open>fmt.Fprintf\<close>. In a workspace with stale files, with a write to \<open>check.yml\<close> that
  fails before its first byte, the provisioner removes the stale files, copies
  \<open>meta.yml\<close> and returns nil, and leaves \<open>check.yml\<close> empty where the template has
  the content \<open>c\<close>.
\<close>
theorem createAnsibleFiles_drops_write_error:
  "ReadFile (ansibleFS example_template) [''ansible'', ''check.yml''] = Inr ''c''
   \<and> fst (Fprintf write_fault_on_check [''w'', ''ansible'', ''check.yml''] ''c'' stale_fs)
       = Some (WriteError [''w'', ''ansible'', ''check.yml''])
   \<and> fst (createAnsibleFiles write_fault_on_check example_template [''w''] stale_fs) = None
   \<and> snd (createAnsibleFiles write_fault_on_check example_template [''w''] stale_fs)
       [''w'', ''ansible'', ''check.yml''] = Some (File [])
   \<and> snd (createAnsibleFiles write_fault_on_check example_template [''w''] stale_fs)
       [''w'', ''ansible'', ''meta.yml''] = Some (File ''m'')
   \<and> snd (createAnsibleFiles write_fault_on_check example_template [''w''] stale_fs)
       [''w'', ''ansible'', ''left_over.yml''] = None"
  by (simp add: provision_defs os_defs example_template_def write_fault_on_check_def
      stale_fs_def Let_def)

text \<open>
  Claim C2 does not hold of the code for a provisioning failure the provisioner does not
  report: with the same failed write, \<open>BuildCatalog\<close> returns nil and sets the readiness
  flag of a service that was not ready, over a workspace whose \<open>check.yml\<close> is empty.
\<close>
theorem BuildCatalog_ready_after_failed_write:
  "fst (Fprintf (build_faults build_write_fails) [''w'', ''ansible'', ''check.yml''] ''c'' stale_fs)
       = Some (WriteError [''w'', ''ansible'', ''check.yml''])
   \<and> fst (BuildCatalog build_write_fails example_template stale_fs new_service) = None
   \<and> fst (snd (BuildCatalog build_write_fails example_template stale_fs new_service))
       [''w'', ''ansible'', ''check.yml''] = Some (File [])
   \<and> ready new_service = False
   \<and> ready (fst (snd (snd (BuildCatalog build_write_fails example_template stale_fs new_service))))
       = True"
  by (simp add: build_defs build_write_fails_def provision_defs os_defs example_template_def
      write_fault_on_check_def stale_fs_def new_service_def NewRunnerService_def example_config_def
      Let_def)

section \<open>The provisioner when no write fails\<close>

lemma WalkDir_append:
  "WalkDir fn (xs @ ys) s =
     (case WalkDir fn xs s of (Some e, s') \<Rightarrow> (Some e, s') | (None, s') \<Rightarrow> WalkDir fn ys s')"
  by (induction xs arbitrary: s) (auto split: prod.splits option.splits)

lemma lookup_other_name: "entry_name e \<noteq> n \<Longrightarrow> lookup e (n # q) = None"
  by (cases e) auto

lemma lookup_list_no_name:
  "n \<notin> entry_name ` set es \<Longrightarrow> lookup_list es (n # q) = None"
  by (induction es) (auto simp: lookup_other_name)

lemma lookup_list_member:
  "distinct (map entry_name es) \<Longrightarrow> e \<in> set es \<Longrightarrow>
   lookup_list es (entry_name e # q) = lookup e (entry_name e # q)"
proof (induction es)
  case Nil
  then show ?case by simp
next
  case (Cons x xs)
  show ?case
  proof (cases "x = e")
    case True
    have "entry_name e \<notin> entry_name ` set xs" using Cons.prems(1) True by auto
    then have "lookup_list xs (entry_name e # q) = None" by (rule lookup_list_no_name)
    then show ?thesis using True by (simp split: option.splits)
  next
    case False
    then have m: "e \<in> set xs" using Cons.prems(2) by simp
    then have "entry_name x \<noteq> entry_name e" using Cons.prems(1) by auto
    then have "lookup x (entry_name e # q) = None" by (rule lookup_other_name)
    then show ?thesis using Cons.IH m Cons.prems(1) by simp
  qed
qed

lemma template_node_file:
  "template_node (EFile n c) (n # q) = (if q = [] then Some (File c) else None)"
  by (simp add: template_node_def)

lemma template_node_dir_self: "template_node (EDir n es) [n] = Some Dir"
  by (simp add: template_node_def)

lemma template_node_dir_child:
  "distinct (map entry_name es) \<Longrightarrow> e \<in> set es \<Longrightarrow>
   template_node (EDir n es) (n # entry_name e # q) = template_node e (entry_name e # q)"
  by (simp add: template_node_def lookup_list_member)

lemma template_node_dir_no_child:
  "m \<notin> entry_name ` set es \<Longrightarrow> template_node (EDir n es) (n # m # q) = None"
  by (simp add: template_node_def lookup_list_no_name)

lemma copy_entry_file:
  assumes "write_fault flt (folder @ P @ [n]) = None"
    and "lookup root (P @ [n]) = Some (EFile n c)"
    and "is_dir fs (folder @ P)" and "fs (folder @ P @ [n]) = None"
    and "copy_entry flt root folder (P @ [n], False, None) fs = (None, fs')"
  shows "fs' = fs(folder @ P @ [n] \<mapsto> File c)"
proof -
  have b: "butlast (folder @ P @ [n]) = folder @ P"
    by (metis append_assoc butlast_snoc)
  show ?thesis
    using assms b
    by (auto simp: copy_entry_def ReadFile_def path_Join_def os_Create_def Fprintf_def
        split: if_splits)
qed

lemma copy_entry_dir:
  assumes "\<not> mkdir_fault flt (folder @ P @ [n])"
    and "is_dir fs (folder @ P)" and "fs (folder @ P @ [n]) = None"
  shows "copy_entry flt root folder (P @ [n], True, None) fs = (None, fs(folder @ P @ [n] \<mapsto> Dir))"
proof -
  have b: "butlast (folder @ P @ [n]) = folder @ P"
    by (metis append_assoc butlast_snoc)
  show ?thesis
    using assms b
    by (simp add: copy_entry_def path_Join_def os_Mkdir_def)
qed

lemma below_child: "prefix (A @ [n]) (A @ m # q) \<longleftrightarrow> n = m"
  by simp

lemma walk_entry:
  assumes nw: "\<forall>p. write_fault flt p = None" and nm: "\<forall>p. \<not> mkdir_fault flt p"
  shows "well_formed e \<Longrightarrow>
    (\<forall>q. lookup root (P @ entry_name e # q) = lookup e (entry_name e # q)) \<Longrightarrow>
    is_dir fs (folder @ P) \<Longrightarrow>
    (\<forall>q. fs (folder @ P @ entry_name e # q) = None) \<Longrightarrow>
    WalkDir (copy_entry flt root folder) (walk P e) fs = (None, fs') \<Longrightarrow>
    (\<forall>q. fs' (folder @ P @ entry_name e # q) = template_node e (entry_name e # q))
    \<and> (\<forall>p. \<not> prefix (folder @ P @ [entry_name e]) p \<longrightarrow> fs' p = fs p)"
proof (induction e arbitrary: P fs fs')
  case (EFile n c)
  have l: "lookup root (P @ [n]) = Some (EFile n c)"
    using EFile.prems(2) [rule_format, of "[]"] by simp
  have r: "copy_entry flt root folder (P @ [n], False, None) fs = (None, fs')"
    using EFile.prems(5) by (auto split: prod.splits option.splits)
  have f: "fs' = fs(folder @ P @ [n] \<mapsto> File c)"
    using copy_entry_file [OF nw [rule_format] l EFile.prems(3) _ r] EFile.prems(4) [rule_format, of "[]"]
    by simp
  show ?case
  proof (intro conjI allI impI)
    fix q
    show "fs' (folder @ P @ entry_name (EFile n c) # q) = template_node (EFile n c) (entry_name (EFile n c) # q)"
      using f EFile.prems(4) [rule_format, of q] by (cases q) (simp_all add: template_node_file)
  next
    fix p assume "\<not> prefix (folder @ P @ [entry_name (EFile n c)]) p"
    then have "p \<noteq> folder @ P @ [n]" by auto
    then show "fs' p = fs p" using f by simp
  qed
next
  case (EDir n cs)
  let ?D = "folder @ P @ [n]"
  let ?fn = "copy_entry flt root folder"
  have d: "distinct (map entry_name cs)" and wf: "\<forall>x \<in> set cs. well_formed x"
    using EDir.prems(1) by simp_all
  have none: "fs ?D = None" using EDir.prems(4) [rule_format, of "[]"] by simp
  have m: "?fn (P @ [n], True, None) fs = (None, fs(?D \<mapsto> Dir))"
    using copy_entry_dir [OF nm [rule_format] EDir.prems(3) none] .
  have run: "WalkDir ?fn (concat (map (walk (P @ [n])) cs)) (fs(?D \<mapsto> Dir)) = (None, fs')"
    using EDir.prems(5) m by simp
  have rl: "lookup root ((P @ [n]) @ entry_name x # q) = lookup x (entry_name x # q)"
    if "x \<in> set cs" for x q
    using EDir.prems(2) [rule_format, of "entry_name x # q"] lookup_list_member [OF d that, of q]
    by simp
  have children: "(\<forall>x \<in> set ys. \<forall>q. g' (?D @ entry_name x # q) = template_node x (entry_name x # q))
      \<and> (\<forall>p. (\<forall>x \<in> set ys. \<not> prefix (?D @ [entry_name x]) p) \<longrightarrow> g' p = g p)"
    if "set ys \<subseteq> set cs" and "distinct (map entry_name ys)" and "g ?D = Some Dir"
      and "\<forall>x \<in> set ys. \<forall>q. g (?D @ entry_name x # q) = None"
      and "WalkDir ?fn (concat (map (walk (P @ [n])) ys)) g = (None, g')"
    for ys g g'
    using that
  proof (induction ys arbitrary: g g')
    case Nil
    then show ?case by simp
  next
    case (Cons y ys)
    have y: "y \<in> set cs" using Cons.prems(1) by simp
    obtain r1 g1 where w1: "WalkDir ?fn (walk (P @ [n]) y) g = (r1, g1)" by (metis prod.exhaust)
    have r1: "r1 = None" and w2: "WalkDir ?fn (concat (map (walk (P @ [n])) ys)) g1 = (None, g')"
      using Cons.prems(5) w1 by (auto simp: WalkDir_append split: option.splits)
    have ey: "(\<forall>q. g1 (folder @ (P @ [n]) @ entry_name y # q) = template_node y (entry_name y # q))
      \<and> (\<forall>p. \<not> prefix (folder @ (P @ [n]) @ [entry_name y]) p \<longrightarrow> g1 p = g p)"
    proof (rule EDir.IH [OF y])
      show "well_formed y" using wf y by simp
      show "\<forall>q. lookup root ((P @ [n]) @ entry_name y # q) = lookup y (entry_name y # q)"
        using rl [OF y] by simp
      show "is_dir g (folder @ P @ [n])" using Cons.prems(3) by (simp add: is_dir_def)
      show "\<forall>q. g (folder @ (P @ [n]) @ entry_name y # q) = None" using Cons.prems(4) by simp
      show "WalkDir ?fn (walk (P @ [n]) y) g = (None, g1)" using w1 r1 by simp
    qed
    have other: "entry_name x \<noteq> entry_name y" if "x \<in> set ys" for x
    proof -
      have "entry_name x \<in> entry_name ` set ys" using that by (rule imageI)
      moreover have "entry_name y \<notin> entry_name ` set ys" using Cons.prems(2) by simp
      ultimately show ?thesis by metis
    qed
    have g1D: "g1 ?D = Some Dir"
      using ey Cons.prems(3) by simp
    have g1N: "\<forall>x \<in> set ys. \<forall>q. g1 (?D @ entry_name x # q) = None"
    proof (intro ballI allI)
      fix x q assume x: "x \<in> set ys"
      have "\<not> prefix (folder @ (P @ [n]) @ [entry_name y]) (?D @ entry_name x # q)"
        using other [OF x] by simp
      then have "g1 (?D @ entry_name x # q) = g (?D @ entry_name x # q)"
        using ey by blast
      then show "g1 (?D @ entry_name x # q) = None" using Cons.prems(4) x by simp
    qed
    have ih: "(\<forall>x \<in> set ys. \<forall>q. g' (?D @ entry_name x # q) = template_node x (entry_name x # q))
      \<and> (\<forall>p. (\<forall>x \<in> set ys. \<not> prefix (?D @ [entry_name x]) p) \<longrightarrow> g' p = g1 p)"
      using Cons.IH [OF _ _ g1D g1N w2] Cons.prems(1,2) by simp
    show ?case
    proof (intro conjI ballI allI impI)
      fix x q assume x: "x \<in> set (y # ys)"
      show "g' (?D @ entry_name x # q) = template_node x (entry_name x # q)"
      proof (cases "x \<in> set ys")
        case True
        then show ?thesis using ih by blast
      next
        case False
        then have xy: "x = y" using x by simp
        have "\<forall>z \<in> set ys. \<not> prefix (?D @ [entry_name z]) (?D @ entry_name y # q)"
          using other by simp
        then have "g' (?D @ entry_name y # q) = g1 (?D @ entry_name y # q)" using ih by blast
        then show ?thesis using ey xy by simp
      qed
    next
      fix p assume p: "\<forall>x \<in> set (y # ys). \<not> prefix (?D @ [entry_name x]) p"
      then have "g' p = g1 p" using ih by simp
      moreover have "g1 p = g p" using ey p by simp
      ultimately show "g' p = g p" by simp
    qed
  qed
  have c: "(\<forall>x \<in> set cs. \<forall>q. fs' (?D @ entry_name x # q) = template_node x (entry_name x # q))
      \<and> (\<forall>p. (\<forall>x \<in> set cs. \<not> prefix (?D @ [entry_name x]) p) \<longrightarrow> fs' p = (fs(?D \<mapsto> Dir)) p)"
  proof (rule children [OF _ d _ _ run])
    show "set cs \<subseteq> set cs" by simp
    show "(fs(?D \<mapsto> Dir)) ?D = Some Dir" by simp
    show "\<forall>x \<in> set cs. \<forall>q. (fs(?D \<mapsto> Dir)) (?D @ entry_name x # q) = None"
      using EDir.prems(4) by simp
  qed
  show ?case
  proof (intro conjI allI impI)
    fix q
    show "fs' (folder @ P @ entry_name (EDir n cs) # q)
        = template_node (EDir n cs) (entry_name (EDir n cs) # q)"
    proof (cases q)
      case Nil
      have "\<forall>x \<in> set cs. \<not> prefix (?D @ [entry_name x]) ?D" by simp
      then have "fs' ?D = (fs(?D \<mapsto> Dir)) ?D" using c by blast
      then show ?thesis using Nil by (simp add: template_node_dir_self)
    next
      case (Cons m q')
      show ?thesis
      proof (cases "m \<in> entry_name ` set cs")
        case True
        then obtain x where x: "x \<in> set cs" and mx: "m = entry_name x" by auto
        have "fs' (?D @ entry_name x # q') = template_node x (entry_name x # q')"
          using c x by blast
        then show ?thesis
          using Cons mx template_node_dir_child [OF d x, of n q'] by simp
      next
        case False
        then have "\<forall>x \<in> set cs. \<not> prefix (?D @ [entry_name x]) (?D @ m # q')" by auto
        then have "fs' (?D @ m # q') = (fs(?D \<mapsto> Dir)) (?D @ m # q')" using c by blast
        then have "fs' (?D @ m # q') = None" using EDir.prems(4) [rule_format, of "m # q'"] by simp
        then show ?thesis using Cons template_node_dir_no_child [OF False, of n q'] by simp
      qed
    qed
  next
    fix p assume p: "\<not> prefix (folder @ P @ [entry_name (EDir n cs)]) p"
    then have np: "\<not> prefix ?D p" by simp
    have "\<forall>x \<in> set cs. \<not> prefix (?D @ [entry_name x]) p"
      using np by (metis append_assoc append_prefixD)
    then have "fs' p = (fs(?D \<mapsto> Dir)) p" using c by blast
    moreover have "p \<noteq> ?D" using np by auto
    ultimately show "fs' p = fs p" by simp
  qed
qed

lemma after_reset:
  "fst (os_RemoveAll flt A fs) = None \<Longrightarrow> fst (os_MkdirAll flt A (snd (os_RemoveAll flt A fs))) = None \<Longrightarrow>
   snd (os_MkdirAll flt A (snd (os_RemoveAll flt A fs))) A = (if A = [] then None else Some Dir)
   \<and> (\<forall>q. q \<noteq> [] \<longrightarrow> snd (os_MkdirAll flt A (snd (os_RemoveAll flt A fs))) (A @ q) = None)
   \<and> (\<forall>p. p \<noteq> [] \<and> strict_prefix p A \<longrightarrow> snd (os_MkdirAll flt A (snd (os_RemoveAll flt A fs))) p = Some Dir)"
  by (auto simp: os_RemoveAll_def os_MkdirAll_def split: if_splits)


lemma createAnsibleFiles_success:
  assumes "fst (createAnsibleFiles flt tmpl folder fs) = None"
  shows "fst (os_RemoveAll flt (folder @ [''ansible'']) fs) = None
    \<and> fst (os_MkdirAll flt (folder @ [''ansible'']) (snd (os_RemoveAll flt (folder @ [''ansible'']) fs))) = None
    \<and> createAnsibleFiles flt tmpl folder fs
        = WalkDir (copy_entry flt (ansibleFS tmpl) folder) (walk [] (ansibleFS tmpl))
            (snd (os_MkdirAll flt (folder @ [''ansible''])
               (snd (os_RemoveAll flt (folder @ [''ansible'']) fs))))"
proof -
  obtain e1 fs1 where r: "os_RemoveAll flt (folder @ [''ansible'']) fs = (e1, fs1)"
    by (metis prod.exhaust)
  obtain e2 fs2 where m: "os_MkdirAll flt (folder @ [''ansible'']) fs1 = (e2, fs2)"
    by (metis prod.exhaust)
  show ?thesis
    using assms
    by (cases e1; cases e2) (simp_all add: createAnsibleFiles_def path_Join_def r m)
qed


text \<open>
  When no write and no \<open>os.Mkdir\<close> fails (the two calls whose results
  \<open>createAnsibleFiles\<close> drops), a call that returns nil leaves below
  \<open>folder/ansible\<close> exactly what the template holds, whatever was there before: every
  path of the template with its directory or its bytes, and nothing else.
\<close>

theorem provision_mirrors_template:
  assumes "fst (createAnsibleFiles flt tmpl folder fs) = None"
    and "\<forall>p. write_fault flt p = None" and "\<forall>p. \<not> mkdir_fault flt p"
    and "well_formed (ansibleFS tmpl)"
  shows "snd (createAnsibleFiles flt tmpl folder fs) (folder @ ''ansible'' # q)
     = template_node (ansibleFS tmpl) (''ansible'' # q)"
proof -
  define A where "A = folder @ [''ansible'']"
  define root where "root = ansibleFS tmpl"
  define fs2 where "fs2 = snd (os_MkdirAll flt A (snd (os_RemoveAll flt A fs)))"
  define g where "g = fs2(A := None)"
  define fs' where "fs' = snd (createAnsibleFiles flt tmpl folder fs)"
  have s: "fst (os_RemoveAll flt A fs) = None"
     "fst (os_MkdirAll flt A (snd (os_RemoveAll flt A fs))) = None"
     "createAnsibleFiles flt tmpl folder fs = WalkDir (copy_entry flt root folder) (walk [] root) fs2"
    using createAnsibleFiles_success [OF assms(1)] by (simp_all add: A_def root_def fs2_def)
  have run: "WalkDir (copy_entry flt root folder) (walk [] root) fs2 = (None, fs')"
    using s(3) assms(1) by (simp add: fs'_def prod_eq_iff)
  have A: "A \<noteq> []" by (simp add: A_def)
  have f2: "fs2 A = Some Dir" "\<And>q. q \<noteq> [] \<Longrightarrow> fs2 (A @ q) = None"
     "\<And>p. p \<noteq> [] \<Longrightarrow> strict_prefix p A \<Longrightarrow> fs2 p = Some Dir"
    using after_reset [OF s(1,2)] A by (simp_all add: fs2_def)
  have w: "walk [] root = ([''ansible''], True, None) # concat (map (walk [''ansible'']) tmpl)"
    by (simp add: root_def ansibleFS_def)
  have first2: "copy_entry flt root folder ([''ansible''], True, None) fs2 = (None, fs2)"
    using f2(1) by (simp add: copy_entry_def path_Join_def os_Mkdir_def A_def)
  have gd: "is_dir g (folder @ [])"
  proof (cases "folder = []")
    case True
    then show ?thesis by (simp add: is_dir_def)
  next
    case False
    have "strict_prefix folder A" by (simp add: A_def strict_prefix_def)
    then have "fs2 folder = Some Dir" using f2(3) False by simp
    moreover have "folder \<noteq> A" by (simp add: A_def)
    ultimately show ?thesis by (simp add: is_dir_def g_def)
  qed
  have gn: "g (folder @ [] @ [''ansible'']) = None" by (simp add: g_def A_def)
  have firstg: "copy_entry flt root folder ([] @ [''ansible''], True, None) g
      = (None, g(folder @ [] @ [''ansible''] \<mapsto> Dir))"
    using copy_entry_dir [OF assms(3) [rule_format] gd gn] .
  have same: "g(folder @ [] @ [''ansible''] \<mapsto> Dir) = fs2"
    using f2(1) by (auto simp: g_def A_def)
  have rung: "WalkDir (copy_entry flt root folder) (walk [] root) g = (None, fs')"
  proof -
    have "WalkDir (copy_entry flt root folder) (walk [] root) g
        = WalkDir (copy_entry flt root folder) (concat (map (walk [''ansible'']) tmpl)) fs2"
      using firstg same by (simp add: w)
    moreover have "WalkDir (copy_entry flt root folder) (walk [] root) fs2
        = WalkDir (copy_entry flt root folder) (concat (map (walk [''ansible'']) tmpl)) fs2"
      using first2 by (simp add: w)
    ultimately show ?thesis using run by simp
  qed
  have n: "entry_name root = ''ansible''" by (simp add: root_def ansibleFS_def)
  have gq: "\<forall>q. g (folder @ [] @ entry_name root # q) = None"
  proof
    fix q
    show "g (folder @ [] @ entry_name root # q) = None"
    proof (cases q)
      case Nil
      then show ?thesis using gn n by simp
    next
      case (Cons a q')
      have "fs2 (A @ q) = None" using f2(2) Cons by simp
      moreover have "A @ q \<noteq> A" using Cons by simp
      ultimately show ?thesis using n by (simp add: g_def A_def)
    qed
  qed
  have wf: "well_formed root" using assms(4) by (simp add: root_def)
  have "(\<forall>q. fs' (folder @ [] @ entry_name root # q) = template_node root (entry_name root # q))
    \<and> (\<forall>p. \<not> prefix (folder @ [] @ [entry_name root]) p \<longrightarrow> fs' p = g p)"
    by (rule walk_entry [OF assms(2,3) wf _ gd gq rung]) simp
  then have "fs' (folder @ ''ansible'' # q) = template_node root (''ansible'' # q)"
    using n by simp
  then show ?thesis by (simp add: fs'_def root_def)
qed

theorem provision_mirrors_template_witness:
  "fst (createAnsibleFiles no_faults example_template [''w''] stale_fs) = None
   \<and> write_fault no_faults = (\<lambda>p. None) \<and> mkdir_fault no_faults = (\<lambda>p. False)
   \<and> well_formed (ansibleFS example_template)
   \<and> stale_fs [''w'', ''ansible'', ''check.yml''] = Some (File ''old'')
   \<and> stale_fs [''w'', ''ansible'', ''left_over.yml''] = Some (File ''old'')
   \<and> snd (createAnsibleFiles no_faults example_template [''w''] stale_fs)
       [''w'', ''ansible'', ''check.yml''] = Some (File ''c'')
   \<and> snd (createAnsibleFiles no_faults example_template [''w''] stale_fs)
       [''w'', ''ansible'', ''left_over.yml''] = None"
proof -
  have h: "fst (createAnsibleFiles no_faults example_template [''w''] stale_fs) = None"
    by (simp add: provision_defs os_defs example_template_def stale_fs_def Let_def)
  have f: "write_fault no_faults = (\<lambda>p. None) \<and> mkdir_fault no_faults = (\<lambda>p. False)"
    by (simp add: no_faults_def)
  have w: "well_formed (ansibleFS example_template)"
    by (simp add: ansibleFS_def example_template_def)
  have t: "template_node (ansibleFS example_template) [''ansible'', ''check.yml''] = Some (File ''c'')"
     "template_node (ansibleFS example_template) [''ansible'', ''left_over.yml''] = None"
    by (simp_all add: template_node_def ansibleFS_def example_template_def)
  have s: "stale_fs [''w'', ''ansible'', ''check.yml''] = Some (File ''old'')
     \<and> stale_fs [''w'', ''ansible'', ''left_over.yml''] = Some (File ''old'')"
    by (simp add: stale_fs_def)
  show ?thesis
    using h f w t s
      provision_mirrors_template [of no_faults example_template "[''w'']" stale_fs "[''check.yml'']"]
      provision_mirrors_template [of no_faults example_template "[''w'']" stale_fs "[''left_over.yml'']"]
    by simp
qed

end
